theory Spec2Isabelle
  imports Main "HOL-Library.Word" "HOL-Library.Char_ord" "HOL-Library.List_Lexorder"
    "HOL-Library.Product_Lexorder" "HOL-Library.AList"
begin

unbundle bit_operations_syntax

section \<open>Errors\<close>

text \<open>
  Go's \<open>error\<close> values, as far as the reconciler tells them apart. The object store
  client answers with a status reason (\<open>errors.IsAlreadyExists\<close> and
  \<open>errors.IsTimeout\<close> test it); \<open>fmt.Errorf\<close> wraps a cause in a message that
  names the operation, one constructor per format string of the source. \<open>nil\<close> is
  \<open>None\<close> of \<open>error option\<close>. A run-time panic (nil dereference, slice bounds,
  write to a nil map) is \<open>Panic\<close>; it is never a returned error of the Go program.
\<close>

datatype TemplateType = StatefulSetTemplateType | DeploymentTemplateType

datatype error =
    AlreadyExists
  | Timeout
  | NotFound
  | Conflict
  | ServerError string
  | AlreadyOwned string
  | FailCreatePool TemplateType string error
  | FailDeletePool TemplateType string string string error
  | FailListOtherPools TemplateType string string error
  | FailDeleteOtherPool string TemplateType string string error
  | FailManageProvision error
  | FailFindPoolConfig string
  | PatchError string
  | CollisionCountNil
  | NeedWorkloadTemplate string string
  | Aggregate "error list"
  | Panic string

fun IsTimeout :: "error \<Rightarrow> bool" where
  "IsTimeout Timeout = True"
| "IsTimeout _ = False"

fun IsAlreadyExists :: "error \<Rightarrow> bool" where
  "IsAlreadyExists AlreadyExists = True"
| "IsAlreadyExists _ = False"

text \<open>\<open>utilerrors.NewAggregate\<close>: nil for an empty list of errors.\<close>

definition NewAggregate :: "error list \<Rightarrow> error option" where
  "NewAggregate errs = (if errs = [] then None else Some (Aggregate errs))"

section \<open>util.SlowStartBatch (pkg/yurtappmanager/util/tools.go)\<close>

text \<open>
  \<open>SlowStartBatch(count, initialBatchSize, fn)\<close> starts one goroutine per index of a
  batch, waits for all of them, and looks at the buffered channel \<open>errCh\<close> that holds
  the errors of the batch. The model takes the outcome of each call as a function
  \<open>fn\<close> of the index (\<open>None\<close> is a nil error) and records the indices handed to
  \<open>fn\<close>, batch by batch. The goroutines of a batch finish in any order, so the order
  of \<open>errCh\<close> is not determined by the program: \<open>errCh ! 0\<close> below is whatever the
  scheduler \<open>sched\<close> picks among the errors of the batch. \<open>len(errCh)\<close> does not
  depend on the order.

  Go's \<open>int\<close> is modelled by \<open>int\<close>: every quantity of the loop is bounded by
  \<open>count\<close>, the number of goroutines started.
\<close>

record 'e batch_run =
  batches :: "int list list"
  successes :: int
  batch_err :: "'e option"

definition recv :: "('e list \<Rightarrow> nat) \<Rightarrow> 'e list \<Rightarrow> 'e" where
  "recv sched errCh = errCh ! (sched errCh mod length errCh)"

function slowStartLoop ::
  "('e list \<Rightarrow> nat) \<Rightarrow> (int \<Rightarrow> 'e option) \<Rightarrow> int \<Rightarrow> int \<Rightarrow> int \<Rightarrow> int \<Rightarrow> int list list
     \<Rightarrow> 'e batch_run" where
  "slowStartLoop sched fn batchSize remaining succ index done =
     (if batchSize > 0 then
        (let idxs = [index .. index + batchSize - 1];
             errCh = List.map_filter fn idxs;
             curSuccesses = batchSize - int (length errCh);
             succ' = succ + curSuccesses
         in if length errCh > 0
            then \<lparr>batches = done @ [idxs], successes = succ', batch_err = Some (recv sched errCh)\<rparr>
            else slowStartLoop sched fn (min (2 * batchSize) (remaining - batchSize))
                   (remaining - batchSize) succ' (index + batchSize) (done @ [idxs]))
      else \<lparr>batches = done, successes = succ, batch_err = None\<rparr>)"
  by pat_completeness auto
termination
  by (relation "measure (\<lambda>(sched, fn, batchSize, remaining, succ, index, done).
        2 * nat remaining + (if batchSize > 0 then 1 else 0))") auto

declare slowStartLoop.simps [simp del]

definition SlowStartBatch ::
  "('e list \<Rightarrow> nat) \<Rightarrow> int \<Rightarrow> int \<Rightarrow> (int \<Rightarrow> 'e option) \<Rightarrow> 'e batch_run" where
  "SlowStartBatch sched count initialBatchSize fn =
     slowStartLoop sched fn (min count initialBatchSize) count 0 0 []"

text \<open>
  The batch sizes the spec describes, as a check on a list of sizes: the first batch
  has size \<open>b\<close>, and after a batch of size \<open>b\<close> with \<open>rem\<close> calls still to make,
  the next one has size \<open>min (2 * b) (rem - b)\<close>.
\<close>

fun doubling_capped :: "int \<Rightarrow> int \<Rightarrow> int list \<Rightarrow> bool" where
  "doubling_capped b rem [] = True"
| "doubling_capped b rem (s # ss) = (0 < b \<and> s = b \<and> doubling_capped (min (2 * b) (rem - b)) (rem - b) ss)"

text \<open>
  What a run of the loop from a given state looks like; \<open>bs\<close> are the batches it adds.
\<close>

definition loop_shape ::
  "(int \<Rightarrow> 'e option) \<Rightarrow> int \<Rightarrow> int \<Rightarrow> int \<Rightarrow> int \<Rightarrow> int list list \<Rightarrow> 'e batch_run \<Rightarrow> int list list \<Rightarrow> bool" where
  "loop_shape fn b rem succ index done r bs \<longleftrightarrow>
     batches r = done @ bs
     \<and> doubling_capped b rem (map (\<lambda>xs. int (length xs)) bs)
     \<and> concat bs = [index .. index + int (length (concat bs)) - 1]
     \<and> successes r = succ + int (length (filter (\<lambda>i. fn i = None) (concat bs)))
     \<and> (case batch_err r of
          None \<Rightarrow> (\<forall>i\<in>set (concat bs). fn i = None) \<and> (if 0 < b then int (length (concat bs)) = rem else bs = [])
        | Some e \<Rightarrow> bs \<noteq> [] \<and> (\<forall>i\<in>set (concat (butlast bs)). fn i = None)
             \<and> (\<exists>i\<in>set (last bs). fn i = Some e))"

section \<open>Data model (apis/apps/v1alpha1 and the objects of the cluster)\<close>

text \<open>
  Go's \<open>int32\<close> and \<open>int64\<close> are words; \<open>sint\<close> reads the signed value. A Go
  \<open>map[string]string\<close> is an association list read with \<open>map_of\<close>; reading a
  missing key gives the zero value, the empty string.
\<close>

type_synonym int32 = "32 word"
type_synonym int64 = "64 word"
type_synonym string_map = "(string \<times> string) list"

definition lookup :: "string_map \<Rightarrow> string \<Rightarrow> string" where
  "lookup m k = (case map_of m k of None \<Rightarrow> [] | Some v \<Rightarrow> v)"

text \<open>
  Modelled from the spec: the label and annotation keys of \<open>v1alpha1\<close> (the pool-name
  label, the revision-hash label, the last-applied-patch annotation) are declared
  outside the files at hand. Nothing below depends on their spelling, only on the two
  label keys being different.
\<close>

definition ControllerRevisionHashLabelKey :: string where
  "ControllerRevisionHashLabelKey = ''apps.openyurt.io/controller-revision-hash''"

definition PoolNameLabelKey :: string where
  "PoolNameLabelKey = ''apps.openyurt.io/pool-name''"

definition AnnotationPatchKey :: string where
  "AnnotationPatchKey = ''apps.openyurt.io/patch''"

text \<open>\<open>ControllerRevisionHashLabel\<close> of the revision file.\<close>

definition ControllerRevisionHashLabel :: string where
  "ControllerRevisionHashLabel = ''controller.kubernetes.io/hash''"

text \<open>
  A JSON document: what \<open>json.Unmarshal\<close> gives for a patch, and the unstructured
  form of a live object. Parts of the Kubernetes types that the controller only copies
  (pod spec, update strategy, node selector terms, tolerations) are kept as documents.
\<close>

datatype doc =
    DNull
  | DBool bool
  | DInt int
  | DStr string
  | DList "doc list"
  | DMap "(string \<times> doc) list"

text \<open>
  \<open>metav1.ObjectMeta\<close>. \<open>ControllerRef\<close> is the name of the owner whose owner
  reference has \<open>controller: true\<close>, if there is one.
\<close>

record ObjectMeta =
  Name :: string
  Namespace :: string
  GenerateName :: string
  Labels :: string_map
  Annotations :: string_map
  ControllerRef :: "string option"
  CreationTimestamp :: int

text \<open>\<open>apps.ControllerRevision\<close>; \<open>Data\<close> is \<open>Data.Raw\<close>.\<close>

record ControllerRevision = ObjectMeta +
  Revision :: int64
  Data :: string

text \<open>\<open>metav1.LabelSelector\<close>; \<open>None\<close> is a nil \<open>MatchLabels\<close> map. Match
  expressions are not modelled.\<close>

record LabelSelector =
  MatchLabels :: "string_map option"

record PodTemplateSpec =
  tmpl_Labels :: string_map
  tmpl_Annotations :: string_map
  tmpl_Spec :: doc

record DeploymentSpec =
  ds_Replicas :: "int32 option"
  ds_Selector :: "LabelSelector option"
  ds_Template :: PodTemplateSpec
  ds_Strategy :: doc
  ds_MinReadySeconds :: int32
  ds_RevisionHistoryLimit :: "int32 option"
  ds_Paused :: bool
  ds_ProgressDeadlineSeconds :: "int32 option"

text \<open>\<open>appsv1.Deployment\<close>, the live object of a pool of kind Deployment.\<close>

record Deployment = ObjectMeta +
  dep_Spec :: DeploymentSpec

record DeploymentTemplateSpec =
  dt_Labels :: string_map
  dt_Annotations :: string_map
  dt_Spec :: DeploymentSpec

record StatefulSetTemplateSpec =
  st_Labels :: string_map
  st_Annotations :: string_map
  st_Spec :: doc

record WorkloadTemplate =
  StatefulSetTemplate :: "StatefulSetTemplateSpec option"
  DeploymentTemplate :: "DeploymentTemplateSpec option"

text \<open>\<open>v1alpha1.Pool\<close>, one entry of the topology; \<open>Patch\<close> is the raw patch.\<close>

record v1alpha1_Pool =
  pool_Name :: string
  NodeSelectorTerm :: doc
  Tolerations :: doc
  pool_Replicas :: "int32 option"
  Patch :: "string option"

record Topology =
  Pools :: "v1alpha1_Pool list"

record UnitedDeploymentSpec =
  Selector :: "LabelSelector option"
  WorkloadTemplate :: WorkloadTemplate
  Topology :: Topology
  RevisionHistoryLimit :: "int32 option"

datatype UnitedDeploymentConditionType = PoolProvisioned | PoolUpdated | PoolFailure

datatype ConditionStatus = ConditionTrue | ConditionFalse | ConditionUnknown

text \<open>A condition; the message is the text of an error, kept as the error.\<close>

record UnitedDeploymentCondition =
  cond_Type :: UnitedDeploymentConditionType
  cond_Status :: ConditionStatus
  cond_Reason :: string
  cond_Message :: "error option"

record UnitedDeploymentStatus =
  CollisionCount :: "int32 option"
  CurrentRevision :: string
  Conditions :: "UnitedDeploymentCondition list"

record UnitedDeployment = ObjectMeta +
  ud_Spec :: UnitedDeploymentSpec
  ud_Status :: UnitedDeploymentStatus

text \<open>
  The runtime pool of the controller, a read-model of one live workload:
  \<open>pool.Spec.PoolRef\<close>, \<open>pool.Status.ReplicasInfo.Replicas\<close>,
  \<open>pool.Status.PatchInfo\<close>.
\<close>

record Pool =
  p_Name :: string
  p_Namespace :: string
  PoolRef :: ObjectMeta
  ObservedGeneration :: int64
  Replicas :: int32
  ReadyReplicas :: int32
  PatchInfo :: string

record UnitedDeploymentPatches =
  np_Replicas :: int32
  np_Patch :: string

text \<open>\<open>nextPatches[name]\<close>: the zero value for a missing key.\<close>

definition nextPatch :: "(string \<times> UnitedDeploymentPatches) list \<Rightarrow> string \<Rightarrow> UnitedDeploymentPatches" where
  "nextPatch nextPatches name =
     (case map_of nextPatches name of
        None \<Rightarrow> \<lparr>np_Replicas = 0, np_Patch = []\<rparr>
      | Some p \<Rightarrow> p)"

section \<open>Unstructured documents and the patch overlay\<close>

text \<open>
  \<open>runtime.DefaultUnstructuredConverter.ToUnstructured\<close> on the modelled fields,
  under the JSON names of the Kubernetes types. A nil pointer or map leaves its key
  out; \<open>omitempty\<close> on the other fields is not modelled (an empty value is written).
\<close>

definition string_map_doc :: "string_map \<Rightarrow> doc" where
  "string_map_doc m = DMap (map (\<lambda>(k, v). (k, DStr v)) m)"

definition int32_doc :: "int32 \<Rightarrow> doc" where
  "int32_doc w = DInt (sint w)"

definition opt_field :: "string \<Rightarrow> ('a \<Rightarrow> doc) \<Rightarrow> 'a option \<Rightarrow> (string \<times> doc) list" where
  "opt_field k f v = (case v of None \<Rightarrow> [] | Some x \<Rightarrow> [(k, f x)])"

definition LabelSelector_doc :: "LabelSelector \<Rightarrow> doc" where
  "LabelSelector_doc s = DMap (opt_field ''matchLabels'' string_map_doc (MatchLabels s))"

definition PodTemplateSpec_doc :: "PodTemplateSpec \<Rightarrow> doc" where
  "PodTemplateSpec_doc t =
     DMap [(''metadata'', DMap [(''labels'', string_map_doc (tmpl_Labels t)),
                               (''annotations'', string_map_doc (tmpl_Annotations t))]),
           (''spec'', tmpl_Spec t)]"

definition DeploymentSpec_doc :: "DeploymentSpec \<Rightarrow> doc" where
  "DeploymentSpec_doc s =
     DMap (opt_field ''replicas'' int32_doc (ds_Replicas s)
         @ opt_field ''selector'' LabelSelector_doc (ds_Selector s)
         @ [(''template'', PodTemplateSpec_doc (ds_Template s)),
            (''strategy'', ds_Strategy s),
            (''minReadySeconds'', int32_doc (ds_MinReadySeconds s))]
         @ opt_field ''revisionHistoryLimit'' int32_doc (ds_RevisionHistoryLimit s)
         @ [(''paused'', DBool (ds_Paused s))]
         @ opt_field ''progressDeadlineSeconds'' int32_doc (ds_ProgressDeadlineSeconds s))"

definition ownerReference_doc :: "string \<Rightarrow> doc" where
  "ownerReference_doc owner = DList [DMap [(''name'', DStr owner), (''controller'', DBool True)]]"

definition ObjectMeta_doc :: "'a ObjectMeta_scheme \<Rightarrow> doc" where
  "ObjectMeta_doc m =
     DMap ([(''name'', DStr (Name m)),
            (''namespace'', DStr (Namespace m)),
            (''generateName'', DStr (GenerateName m)),
            (''labels'', string_map_doc (Labels m)),
            (''annotations'', string_map_doc (Annotations m))]
         @ opt_field ''ownerReferences'' ownerReference_doc (ControllerRef m)
         @ [(''creationTimestamp'', DInt (CreationTimestamp m))])"

definition Deployment_doc :: "Deployment \<Rightarrow> doc" where
  "Deployment_doc d =
     DMap [(''metadata'', ObjectMeta_doc d), (''spec'', DeploymentSpec_doc (dep_Spec d))]"

definition WorkloadTemplate_doc :: "WorkloadTemplate \<Rightarrow> (string \<times> doc) list" where
  "WorkloadTemplate_doc wt =
     opt_field ''statefulSetTemplate''
       (\<lambda>t. DMap [(''metadata'', DMap [(''labels'', string_map_doc (st_Labels t)),
                                       (''annotations'', string_map_doc (st_Annotations t))]),
                   (''spec'', st_Spec t)])
       (StatefulSetTemplate wt)
     @ opt_field ''deploymentTemplate''
       (\<lambda>t. DMap [(''metadata'', DMap [(''labels'', string_map_doc (dt_Labels t)),
                                       (''annotations'', string_map_doc (dt_Annotations t))]),
                   (''spec'', DeploymentSpec_doc (dt_Spec t))])
       (DeploymentTemplate wt)"

text \<open>
  \<open>FromUnstructured\<close>: a missing key or null reads as the zero value, a value of the
  wrong JSON type is an error, and so is an integer outside \<open>int32\<close>.
\<close>

definition bindE :: "error + 'a \<Rightarrow> ('a \<Rightarrow> error + 'b) \<Rightarrow> error + 'b" where
  "bindE m f = (case m of Inl e \<Rightarrow> Inl e | Inr x \<Rightarrow> f x)"

definition field :: "(string \<times> doc) list \<Rightarrow> string \<Rightarrow> doc" where
  "field m k = (case map_of m k of None \<Rightarrow> DNull | Some v \<Rightarrow> v)"

fun as_fields :: "doc \<Rightarrow> error + (string \<times> doc) list" where
  "as_fields DNull = Inr []"
| "as_fields (DMap m) = Inr m"
| "as_fields _ = Inl (PatchError ''cannot unmarshal into an object'')"

fun as_string :: "doc \<Rightarrow> error + string" where
  "as_string DNull = Inr []"
| "as_string (DStr s) = Inr s"
| "as_string _ = Inl (PatchError ''cannot unmarshal into a string'')"

fun as_bool :: "doc \<Rightarrow> error + bool" where
  "as_bool DNull = Inr False"
| "as_bool (DBool b) = Inr b"
| "as_bool _ = Inl (PatchError ''cannot unmarshal into a bool'')"

fun as_int :: "doc \<Rightarrow> error + int" where
  "as_int DNull = Inr 0"
| "as_int (DInt i) = Inr i"
| "as_int _ = Inl (PatchError ''cannot unmarshal into an integer'')"

definition in_int32 :: "int \<Rightarrow> bool" where
  "in_int32 i \<longleftrightarrow> - (2 ^ 31) \<le> i \<and> i < 2 ^ 31"

fun as_int32 :: "doc \<Rightarrow> error + int32" where
  "as_int32 DNull = Inr 0"
| "as_int32 (DInt i) =
     (if in_int32 i then Inr (word_of_int i) else Inl (PatchError ''value out of range for int32''))"
| "as_int32 _ = Inl (PatchError ''cannot unmarshal into an int32'')"

fun as_int32_ptr :: "doc \<Rightarrow> error + int32 option" where
  "as_int32_ptr DNull = Inr None"
| "as_int32_ptr d = bindE (as_int32 d) (\<lambda>w. Inr (Some w))"

fun as_string_entries :: "(string \<times> doc) list \<Rightarrow> error + string_map" where
  "as_string_entries [] = Inr []"
| "as_string_entries ((k, v) # rest) =
     bindE (case v of DStr s \<Rightarrow> Inr s | _ \<Rightarrow> Inl (PatchError ''cannot unmarshal into a string''))
       (\<lambda>s. bindE (as_string_entries rest) (\<lambda>m. Inr ((k, s) # m)))"

definition as_string_map :: "doc \<Rightarrow> error + string_map" where
  "as_string_map d = bindE (as_fields d) as_string_entries"

fun as_controller_ref :: "doc \<Rightarrow> error + string option" where
  "as_controller_ref DNull = Inr None"
| "as_controller_ref (DList []) = Inr None"
| "as_controller_ref (DList (ref # refs)) =
     bindE (as_fields ref) (\<lambda>m.
     bindE (as_bool (field m ''controller'')) (\<lambda>controller.
     bindE (as_string (field m ''name'')) (\<lambda>owner.
       if controller then Inr (Some owner) else as_controller_ref (DList refs))))"
| "as_controller_ref _ = Inl (PatchError ''cannot unmarshal into a list'')"

fun as_LabelSelector_ptr :: "doc \<Rightarrow> error + LabelSelector option" where
  "as_LabelSelector_ptr DNull = Inr None"
| "as_LabelSelector_ptr d =
     bindE (as_fields d) (\<lambda>m.
       case field m ''matchLabels'' of
         DNull \<Rightarrow> Inr (Some \<lparr>MatchLabels = None\<rparr>)
       | ml \<Rightarrow> bindE (as_string_map ml) (\<lambda>labels. Inr (Some \<lparr>MatchLabels = Some labels\<rparr>)))"

definition as_PodTemplateSpec :: "doc \<Rightarrow> error + PodTemplateSpec" where
  "as_PodTemplateSpec d =
     bindE (as_fields d) (\<lambda>m.
     bindE (as_fields (field m ''metadata'')) (\<lambda>meta.
     bindE (as_string_map (field meta ''labels'')) (\<lambda>labels.
     bindE (as_string_map (field meta ''annotations'')) (\<lambda>annotations.
       Inr \<lparr>tmpl_Labels = labels, tmpl_Annotations = annotations, tmpl_Spec = field m ''spec''\<rparr>))))"

definition as_DeploymentSpec :: "doc \<Rightarrow> error + DeploymentSpec" where
  "as_DeploymentSpec d =
     bindE (as_fields d) (\<lambda>m.
     bindE (as_int32_ptr (field m ''replicas'')) (\<lambda>replicas.
     bindE (as_LabelSelector_ptr (field m ''selector'')) (\<lambda>selector.
     bindE (as_PodTemplateSpec (field m ''template'')) (\<lambda>template.
     bindE (as_int32 (field m ''minReadySeconds'')) (\<lambda>minReadySeconds.
     bindE (as_int32_ptr (field m ''revisionHistoryLimit'')) (\<lambda>revisionHistoryLimit.
     bindE (as_bool (field m ''paused'')) (\<lambda>paused.
     bindE (as_int32_ptr (field m ''progressDeadlineSeconds'')) (\<lambda>progressDeadlineSeconds.
       Inr \<lparr>ds_Replicas = replicas, ds_Selector = selector, ds_Template = template,
            ds_Strategy = field m ''strategy'', ds_MinReadySeconds = minReadySeconds,
            ds_RevisionHistoryLimit = revisionHistoryLimit, ds_Paused = paused,
            ds_ProgressDeadlineSeconds = progressDeadlineSeconds\<rparr>))))))))"

definition as_Deployment :: "doc \<Rightarrow> error + Deployment" where
  "as_Deployment d =
     bindE (as_fields d) (\<lambda>m.
     bindE (as_fields (field m ''metadata'')) (\<lambda>meta.
     bindE (as_string (field meta ''name'')) (\<lambda>name.
     bindE (as_string (field meta ''namespace'')) (\<lambda>namespace.
     bindE (as_string (field meta ''generateName'')) (\<lambda>generateName.
     bindE (as_string_map (field meta ''labels'')) (\<lambda>labels.
     bindE (as_string_map (field meta ''annotations'')) (\<lambda>annotations.
     bindE (as_controller_ref (field meta ''ownerReferences'')) (\<lambda>controllerRef.
     bindE (as_int (field meta ''creationTimestamp'')) (\<lambda>creationTimestamp.
     bindE (as_DeploymentSpec (field m ''spec'')) (\<lambda>spec.
       Inr \<lparr>Name = name, Namespace = namespace, GenerateName = generateName, Labels = labels,
            Annotations = annotations, ControllerRef = controllerRef,
            CreationTimestamp = creationTimestamp, dep_Spec = spec\<rparr>))))))))))"

text \<open>
  Modelled from the spec: the strategic merge of \<open>CreateNewPatchedObject\<close> is not in
  the files at hand. The patch is merged over the original field by field; a sub-tree of
  the patch that carries the directive \<open>$patch: replace\<close> is substituted wholesale,
  without the directive; a null deletes the key. No list is merged by key.
\<close>

definition hasReplaceDirective :: "(string \<times> doc) list \<Rightarrow> bool" where
  "hasReplaceDirective patch \<longleftrightarrow> map_of patch ''$patch'' = Some (DStr ''replace'')"

function mergeDoc :: "doc \<Rightarrow> doc \<Rightarrow> doc"
  and mergeFields :: "(string \<times> doc) list \<Rightarrow> (string \<times> doc) list \<Rightarrow> (string \<times> doc) list" where
  "mergeDoc original (DMap patch) =
     (case original of
        DMap orig \<Rightarrow>
          if hasReplaceDirective patch then DMap (AList.delete ''$patch'' patch)
          else DMap (mergeFields orig patch)
      | _ \<Rightarrow> DMap (AList.delete ''$patch'' patch))"
| "mergeDoc original DNull = DNull"
| "mergeDoc original (DBool b) = DBool b"
| "mergeDoc original (DInt i) = DInt i"
| "mergeDoc original (DStr s) = DStr s"
| "mergeDoc original (DList l) = DList l"
| "mergeFields orig [] = orig"
| "mergeFields orig ((k, v) # patch) =
     (let merged = mergeFields orig patch in
      if k = ''$patch'' then merged
      else if v = DNull then AList.delete k merged
      else AList.update k (case map_of orig k of
                             None \<Rightarrow> mergeDoc DNull v
                           | Some old \<Rightarrow> mergeDoc old v) merged)"
  by pat_completeness auto
termination
  by (relation "measure (\<lambda>x. case x of
                   Inl (original, patch) \<Rightarrow> size patch
                 | Inr (orig, patch) \<Rightarrow> size_list (size_prod (\<lambda>_. 0) size) patch)")
     auto

section \<open>The object store client\<close>

text \<open>
  The controller talks to the cluster through \<open>client.Client\<close>, an external
  collaborator. Its state is the list of stored objects of one kind, keyed by namespace
  and name. Every call first consumes one entry of \<open>faults\<close>: \<open>Some e\<close> makes the
  call fail with \<open>e\<close> and leave the objects alone (a transport or server error), \<open>None\<close>
  or an exhausted list lets it proceed. \<open>calls\<close> is the log of the calls made, with
  their results.
\<close>

datatype 'o call =
    GetCall "string \<times> string"
  | ListCall
  | CreateCall 'o
  | UpdateCall 'o
  | DeleteCall 'o

record 'o cluster =
  objects :: "'o list"
  faults :: "error option list"
  calls :: "('o call \<times> error option) list"

definition key_of :: "'a ObjectMeta_scheme \<Rightarrow> string \<times> string" where
  "key_of obj = (Namespace obj, Name obj)"

definition next_fault :: "'o cluster \<Rightarrow> error option" where
  "next_fault c = (case faults c of [] \<Rightarrow> None | f # _ \<Rightarrow> f)"

definition answer :: "'o cluster \<Rightarrow> 'o call \<Rightarrow> error option \<Rightarrow> 'o list \<Rightarrow> 'o cluster" where
  "answer c call result objs =
     \<lparr>objects = objs, faults = tl (faults c), calls = calls c @ [(call, result)]\<rparr>"

definition client_Get ::
  "'a ObjectMeta_scheme cluster \<Rightarrow> string \<times> string
     \<Rightarrow> (error + 'a ObjectMeta_scheme) \<times> 'a ObjectMeta_scheme cluster" where
  "client_Get c key =
     (case next_fault c of
        Some e \<Rightarrow> (Inl e, answer c (GetCall key) (Some e) (objects c))
      | None \<Rightarrow>
          (case find (\<lambda>obj. key_of obj = key) (objects c) of
             None \<Rightarrow> (Inl NotFound, answer c (GetCall key) (Some NotFound) (objects c))
           | Some obj \<Rightarrow> (Inr obj, answer c (GetCall key) None (objects c))))"

definition client_List ::
  "'a ObjectMeta_scheme cluster \<Rightarrow> ('a ObjectMeta_scheme \<Rightarrow> bool)
     \<Rightarrow> (error + 'a ObjectMeta_scheme list) \<times> 'a ObjectMeta_scheme cluster" where
  "client_List c selector =
     (case next_fault c of
        Some e \<Rightarrow> (Inl e, answer c ListCall (Some e) (objects c))
      | None \<Rightarrow> (Inr (filter selector (objects c)), answer c ListCall None (objects c)))"

definition client_Create ::
  "'a ObjectMeta_scheme cluster \<Rightarrow> 'a ObjectMeta_scheme
     \<Rightarrow> error option \<times> 'a ObjectMeta_scheme cluster" where
  "client_Create c obj =
     (case next_fault c of
        Some e \<Rightarrow> (Some e, answer c (CreateCall obj) (Some e) (objects c))
      | None \<Rightarrow>
          if key_of obj \<in> set (map key_of (objects c))
          then (Some AlreadyExists, answer c (CreateCall obj) (Some AlreadyExists) (objects c))
          else (None, answer c (CreateCall obj) None (objects c @ [obj])))"

definition client_Update ::
  "'a ObjectMeta_scheme cluster \<Rightarrow> 'a ObjectMeta_scheme
     \<Rightarrow> error option \<times> 'a ObjectMeta_scheme cluster" where
  "client_Update c obj =
     (case next_fault c of
        Some e \<Rightarrow> (Some e, answer c (UpdateCall obj) (Some e) (objects c))
      | None \<Rightarrow>
          if key_of obj \<in> set (map key_of (objects c))
          then (None, answer c (UpdateCall obj) None
                  (map (\<lambda>old. if key_of old = key_of obj then obj else old) (objects c)))
          else (Some NotFound, answer c (UpdateCall obj) (Some NotFound) (objects c)))"

definition client_Delete ::
  "'a ObjectMeta_scheme cluster \<Rightarrow> 'a ObjectMeta_scheme
     \<Rightarrow> error option \<times> 'a ObjectMeta_scheme cluster" where
  "client_Delete c obj =
     (case next_fault c of
        Some e \<Rightarrow> (Some e, answer c (DeleteCall obj) (Some e) (objects c))
      | None \<Rightarrow>
          if key_of obj \<in> set (map key_of (objects c))
          then (None, answer c (DeleteCall obj) None
                  (filter (\<lambda>old. key_of old \<noteq> key_of obj) (objects c)))
          else (Some NotFound, answer c (DeleteCall obj) (Some NotFound) (objects c)))"

section \<open>Revision management (\<open>constructUnitedDeploymentRevisions\<close> and its helpers)\<close>

text \<open>
  \<open>metav1.LabelSelectorAsSelector\<close> on the modelled part of a selector: a nil
  selector selects nothing, the match labels are required one by one.
\<close>

definition selects :: "LabelSelector option \<Rightarrow> string_map \<Rightarrow> bool" where
  "selects sel labels =
     (case sel of
        None \<Rightarrow> False
      | Some s \<Rightarrow>
          (case MatchLabels s of
             None \<Rightarrow> True
           | Some required \<Rightarrow> list_all (\<lambda>(k, v). map_of labels k = Some v) required))"

text \<open>
  Modelled from the spec: \<open>refmanager.ClaimOwnedObjects\<close> is not in the files at hand.
  It returns the candidates owned by the resource; adoption of orphans and release of
  objects that stopped matching are calls to the store that are not modelled.
\<close>

definition ClaimOwnedObjects ::
  "UnitedDeployment \<Rightarrow> 'a ObjectMeta_scheme list \<Rightarrow> 'a ObjectMeta_scheme list" where
  "ClaimOwnedObjects ud mts =
     filter (\<lambda>mt. ControllerRef mt = Some (Name ud) \<and> Namespace mt = Namespace ud) mts"

definition controlledHistories ::
  "UnitedDeployment \<Rightarrow> ControllerRevision cluster
     \<Rightarrow> (error + ControllerRevision list) \<times> ControllerRevision cluster" where
  "controlledHistories ud c =
     (case client_List c (\<lambda>h. selects (Selector (ud_Spec ud)) (Labels h)) of
        (Inl err, c') \<Rightarrow> (Inl err, c')
      | (Inr histories, c') \<Rightarrow> (Inr (ClaimOwnedObjects ud histories), c'))"

text \<open>
  \<open>history.SortControllerRevisions\<close> of the Kubernetes library: ascending by
  revision, then creation timestamp, then name.
\<close>

definition SortControllerRevisions :: "ControllerRevision list \<Rightarrow> ControllerRevision list" where
  "SortControllerRevisions revisions =
     sort_key (\<lambda>r. (sint (Revision r), CreationTimestamp r, Name r)) revisions"

text \<open>
  The loop of \<open>cleanExpiredRevision\<close> over \<open>*sortedRevisions\<close> from position \<open>i\<close>.
  \<open>live\<close> holds the single key \<open>ud.Status.CurrentRevision\<close>.
\<close>

fun cleanLoop ::
  "string \<Rightarrow> int \<Rightarrow> int \<Rightarrow> ControllerRevision list \<Rightarrow> ControllerRevision cluster
     \<Rightarrow> error option \<times> ControllerRevision cluster" where
  "cleanLoop live exceedNum i [] c = (None, c)"
| "cleanLoop live exceedNum i (revision # rest) c =
     (if Name revision = live then cleanLoop live exceedNum (i + 1) rest c
      else if i \<ge> exceedNum then (None, c)
      else (case client_Delete c revision of
              (Some err, c') \<Rightarrow> (Some err, c')
            | (None, c') \<Rightarrow> cleanLoop live exceedNum (i + 1) rest c'))"

text \<open>
  On a failed delete Go returns the unpruned list together with the error; the caller
  drops the list, and so does \<open>Inl\<close>. A nil \<open>RevisionHistoryLimit\<close> and a negative
  one (the slice expression \<open>[exceedNum:]\<close> beyond the length) panic.
\<close>

definition cleanExpiredRevision ::
  "UnitedDeployment \<Rightarrow> ControllerRevision list \<Rightarrow> ControllerRevision cluster
     \<Rightarrow> (error + ControllerRevision list) \<times> ControllerRevision cluster" where
  "cleanExpiredRevision ud sortedRevisions c =
     (case RevisionHistoryLimit (ud_Spec ud) of
        None \<Rightarrow> (Inl (Panic ''nil pointer dereference''), c)
      | Some limit \<Rightarrow>
          (let exceedNum = int (length sortedRevisions) - sint limit in
           if exceedNum \<le> 0 then (Inr sortedRevisions, c)
           else (case cleanLoop (CurrentRevision (ud_Status ud)) exceedNum 0 sortedRevisions c of
                   (Some err, c') \<Rightarrow> (Inl err, c')
                 | (None, c') \<Rightarrow>
                     if exceedNum > int (length sortedRevisions)
                     then (Inl (Panic ''slice bounds out of range''), c')
                     else (Inr (drop (nat exceedNum) sortedRevisions), c'))))"

definition nextRevision :: "ControllerRevision list \<Rightarrow> int64" where
  "nextRevision revisions =
     (if length revisions \<le> 0 then 1 else Revision (last revisions) + 1)"

text \<open>
  \<open>history.ControllerRevisionName\<close>: the name \<open><resource-name>-<hash>\<close>.
  \<open>history.HashControllerRevision\<close> is a parameter \<open>hashf\<close> of the model, a function
  of the revision and the collision count.
\<close>

definition ControllerRevisionName :: "string \<Rightarrow> string \<Rightarrow> string" where
  "ControllerRevisionName prefix hash = prefix @ ''-'' @ hash"

text \<open>
  \<open>history.NewControllerRevision\<close>: labels copied from the template, the parent as
  controller, the name and the hash label from the hash.
\<close>

definition NewControllerRevision ::
  "(ControllerRevision \<Rightarrow> int32 \<Rightarrow> string) \<Rightarrow> UnitedDeployment \<Rightarrow> string_map \<Rightarrow> string
     \<Rightarrow> int64 \<Rightarrow> int32 \<Rightarrow> ControllerRevision" where
  "NewControllerRevision hashf parent templateLabels data revision collisionCount =
     (let cr = \<lparr>Name = [], Namespace = [], GenerateName = [], Labels = templateLabels,
                Annotations = [], ControllerRef = Some (Name parent), CreationTimestamp = 0,
                Revision = revision, Data = data\<rparr>;
          hash = hashf cr collisionCount
      in cr\<lparr>Name := ControllerRevisionName (Name parent) hash,
            Labels := AList.update ControllerRevisionHashLabel hash templateLabels\<rparr>)"

text \<open>
  \<open>getUnitedDeploymentPatch\<close>: the patch that replaces \<open>spec.workloadTemplate\<close>.
  \<open>json.Marshal\<close> is the parameter \<open>marshal\<close>.
\<close>

definition getUnitedDeploymentPatch :: "(doc \<Rightarrow> string) \<Rightarrow> UnitedDeployment \<Rightarrow> string" where
  "getUnitedDeploymentPatch marshal ud =
     (let template = AList.update ''$patch'' (DStr ''replace'')
                       (WorkloadTemplate_doc (WorkloadTemplate (ud_Spec ud)));
          specCopy = [(''workloadTemplate'', DMap template)];
          objCopy = [(''spec'', DMap specCopy)]
      in marshal (DMap objCopy))"

definition newRevision ::
  "(ControllerRevision \<Rightarrow> int32 \<Rightarrow> string) \<Rightarrow> (doc \<Rightarrow> string) \<Rightarrow> UnitedDeployment \<Rightarrow> int64
     \<Rightarrow> int32 \<Rightarrow> error + ControllerRevision" where
  "newRevision hashf marshal ud revision collisionCount =
     (let patch = getUnitedDeploymentPatch marshal ud in
      case (case StatefulSetTemplate (WorkloadTemplate (ud_Spec ud)) of
              Some t \<Rightarrow> Inr (st_Labels t)
            | None \<Rightarrow>
                (case DeploymentTemplate (WorkloadTemplate (ud_Spec ud)) of
                   Some t \<Rightarrow> Inr (dt_Labels t)
                 | None \<Rightarrow> Inl (NeedWorkloadTemplate (Namespace ud) (Name ud)))) of
        Inl err \<Rightarrow> Inl err
      | Inr selectedLabels \<Rightarrow>
          Inr ((NewControllerRevision hashf ud selectedLabels patch revision collisionCount)
                 \<lparr>Namespace := Namespace ud\<rparr>))"

text \<open>
  \<open>strconv.ParseInt(hs, 10, 32)\<close>: an optional sign and at least one decimal digit,
  nothing else, and a value within the 32-bit signed range; \<open>None\<close> is a non-nil
  error.
\<close>

definition digit_of :: "char \<Rightarrow> nat option" where
  "digit_of c =
     (let n = (of_char c :: nat) in if 48 \<le> n \<and> n \<le> 57 then Some (n - 48) else None)"

fun parse_digits :: "nat \<Rightarrow> string \<Rightarrow> nat option" where
  "parse_digits acc [] = Some acc"
| "parse_digits acc (c # cs) =
     (case digit_of c of None \<Rightarrow> None | Some d \<Rightarrow> parse_digits (10 * acc + d) cs)"

definition ParseInt32 :: "string \<Rightarrow> int option" where
  "ParseInt32 s =
     (let (neg, ds) = (case s of
                         [] \<Rightarrow> (False, [])
                       | c # cs \<Rightarrow> if c = CHR ''-'' then (True, cs)
                                   else if c = CHR ''+'' then (False, cs)
                                   else (False, s))
      in if ds = [] then None
         else (case parse_digits 0 ds of
                 None \<Rightarrow> None
               | Some n \<Rightarrow>
                   (let v = (if neg then - int n else int n)
                    in if - 2147483648 \<le> v \<and> v \<le> 2147483647 then Some v else None)))"

text \<open>
  \<open>history.EqualRevision\<close> and \<open>history.FindEqualRevisions\<close> of the Kubernetes
  library. When the hash labels of both revisions parse as numbers and the numbers
  differ, the revisions are not equal; otherwise they are equal when their
  \<open>Data.Raw\<close> are the same bytes. The library compares the parsed numbers after the
  conversion to \<open>uint32\<close>, which keeps different 32-bit numbers apart.
\<close>

definition EqualRevision :: "ControllerRevision \<Rightarrow> ControllerRevision \<Rightarrow> bool" where
  "EqualRevision lhs rhs =
     (let lhsHash = (case map_of (Labels lhs) ControllerRevisionHashLabel of
                       None \<Rightarrow> None | Some hs \<Rightarrow> ParseInt32 hs);
          rhsHash = (case map_of (Labels rhs) ControllerRevisionHashLabel of
                       None \<Rightarrow> None | Some hs \<Rightarrow> ParseInt32 hs)
      in if lhsHash \<noteq> None \<and> rhsHash \<noteq> None \<and> lhsHash \<noteq> rhsHash then False
         else Data lhs = Data rhs)"

definition FindEqualRevisions ::
  "ControllerRevision list \<Rightarrow> ControllerRevision \<Rightarrow> ControllerRevision list" where
  "FindEqualRevisions revisions needle = filter (\<lambda>r. EqualRevision r needle) revisions"

text \<open>
  The loop of \<open>createControllerRevision\<close>. It has no bound in the source, so the
  model is a partial function: \<open>None\<close> is a run that never returns. The result is the
  returned pair (\<open>Inl\<close> when \<open>err\<close> is not nil), the collision count left in
  \<open>*collisionCount\<close>, and the cluster.
\<close>

partial_function (option) createLoop ::
  "(ControllerRevision \<Rightarrow> int32 \<Rightarrow> string) \<Rightarrow> UnitedDeployment \<Rightarrow> ControllerRevision
     \<Rightarrow> ControllerRevision \<Rightarrow> int32 \<Rightarrow> ControllerRevision cluster
     \<Rightarrow> ((error + ControllerRevision) \<times> int32 \<times> ControllerRevision cluster) option" where
  "createLoop hashf parent revision clone collisionCount c =
     (let hash = hashf revision collisionCount;
          clone' = clone\<lparr>Name := ControllerRevisionName (Name parent) hash\<rparr>
      in case client_Create c clone' of
           (None, c1) \<Rightarrow> Some (Inr clone', collisionCount, c1)
         | (Some err, c1) \<Rightarrow>
             if IsAlreadyExists err then
               (case client_Get c1 (Namespace parent, Name clone') of
                  (Inl err', c2) \<Rightarrow> Some (Inl err', collisionCount, c2)
                | (Inr exists, c2) \<Rightarrow>
                    if Data exists = Data clone' then Some (Inr exists, collisionCount, c2)
                    else createLoop hashf parent revision clone' (collisionCount + 1) c2)
             else Some (Inl err, collisionCount, c1))"

definition createControllerRevision ::
  "(ControllerRevision \<Rightarrow> int32 \<Rightarrow> string) \<Rightarrow> UnitedDeployment \<Rightarrow> ControllerRevision
     \<Rightarrow> int32 option \<Rightarrow> ControllerRevision cluster
     \<Rightarrow> ((error + ControllerRevision) \<times> int32 option \<times> ControllerRevision cluster) option" where
  "createControllerRevision hashf parent revision collisionCount c =
     (case collisionCount of
        None \<Rightarrow> Some (Inl CollisionCountNil, None, c)
      | Some count \<Rightarrow>
          (case createLoop hashf parent revision revision count c of
             None \<Rightarrow> None
           | Some (result, count', c') \<Rightarrow> Some (result, Some count', c')))"

text \<open>
  The rollback branch writes \<open>Revision\<close> through the pointer
  \<open>equalRevisions[equalCount-1]\<close>, which is the same object as the last equal entry
  of \<open>revisions\<close>: the list changes with it.
\<close>

fun assignLastEqual ::
  "(ControllerRevision \<Rightarrow> bool) \<Rightarrow> int64 \<Rightarrow> ControllerRevision list \<Rightarrow> ControllerRevision list" where
  "assignLastEqual eq v [] = []"
| "assignLastEqual eq v (r # rs) =
     (if eq r \<and> \<not> list_ex eq rs then r\<lparr>Revision := v\<rparr> # rs
      else r # assignLastEqual eq v rs)"

text \<open>The loop that looks the current revision up by name; the last match stays.\<close>

definition findCurrentRevision ::
  "UnitedDeployment \<Rightarrow> ControllerRevision list \<Rightarrow> ControllerRevision option" where
  "findCurrentRevision ud revisions =
     find (\<lambda>r. Name r = CurrentRevision (ud_Status ud)) (rev revisions)"

text \<open>
  \<open>constructUnitedDeploymentRevisions\<close> returns
  \<open>(currentRevision, updateRevision, collisionCount, err)\<close>; a nil revision is
  \<open>None\<close>. A panic of \<open>cleanExpiredRevision\<close> is passed on in the place of the error.
\<close>

definition constructUnitedDeploymentRevisions ::
  "(ControllerRevision \<Rightarrow> int32 \<Rightarrow> string) \<Rightarrow> (doc \<Rightarrow> string) \<Rightarrow> UnitedDeployment
     \<Rightarrow> ControllerRevision cluster
     \<Rightarrow> ((ControllerRevision option \<times> ControllerRevision option \<times> int32 \<times> error option)
          \<times> ControllerRevision cluster) option" where
  "constructUnitedDeploymentRevisions hashf marshal ud c =
     (let collisionCount = (case CollisionCount (ud_Status ud) of None \<Rightarrow> 0 | Some v \<Rightarrow> v) in
      case controlledHistories ud c of
        (Inl err, c1) \<Rightarrow> Some ((None, None, collisionCount, Some err), c1)
      | (Inr listed, c1) \<Rightarrow>
      (case cleanExpiredRevision ud (SortControllerRevisions listed) c1 of
        (Inl err, c2) \<Rightarrow> Some ((None, None, collisionCount, Some err), c2)
      | (Inr revisions, c2) \<Rightarrow>
      (case newRevision hashf marshal ud (nextRevision revisions) collisionCount of
        Inl err \<Rightarrow> Some ((None, None, collisionCount, Some err), c2)
      | Inr updateRevision \<Rightarrow>
      (let equalRevisions = FindEqualRevisions revisions updateRevision;
           equalCount = length equalRevisions
       in if equalCount > 0 \<and> EqualRevision (last revisions) (last equalRevisions) then
            Some ((Some (case findCurrentRevision ud revisions of
                           None \<Rightarrow> last revisions | Some r \<Rightarrow> r),
                   Some (last revisions), collisionCount, None), c2)
          else if equalCount > 0 then
            (let rolled = (last equalRevisions)\<lparr>Revision := Revision updateRevision\<rparr>;
                 revisions' = assignLastEqual (\<lambda>r. EqualRevision r updateRevision)
                                (Revision updateRevision) revisions
             in case client_Update c2 rolled of
                  (Some err, c3) \<Rightarrow> Some ((None, None, collisionCount, Some err), c3)
                | (None, c3) \<Rightarrow>
                    Some ((Some (case findCurrentRevision ud revisions' of
                                   None \<Rightarrow> rolled | Some r \<Rightarrow> r),
                           Some rolled, collisionCount, None), c3))
          else
            (case createControllerRevision hashf ud updateRevision (Some collisionCount) c2 of
               None \<Rightarrow> None
             | Some (Inl err, count, c3) \<Rightarrow>
                 Some ((None, None, (case count of None \<Rightarrow> 0 | Some v \<Rightarrow> v), Some err), c3)
             | Some (Inr created, count, c3) \<Rightarrow>
                 Some ((Some (case findCurrentRevision ud revisions of
                                None \<Rightarrow> created | Some r \<Rightarrow> r),
                        Some created, (case count of None \<Rightarrow> 0 | Some v \<Rightarrow> v), None), c3))))))"

text \<open>
  Notions used to state the properties of a reconciliation pass: the key by which
  \<open>SortControllerRevisions\<close> orders, the history that \<open>controlledHistories\<close> finds
  among the stored objects, the collision count a pass starts from, and the calls that
  stored a new or a changed object.
\<close>

definition revisionKey :: "ControllerRevision \<Rightarrow> int \<times> int \<times> string" where
  "revisionKey r = (sint (Revision r), CreationTimestamp r, Name r)"

definition ownedHistories :: "UnitedDeployment \<Rightarrow> ControllerRevision list \<Rightarrow> ControllerRevision list" where
  "ownedHistories ud objs =
     ClaimOwnedObjects ud (filter (\<lambda>h. selects (Selector (ud_Spec ud)) (Labels h)) objs)"

definition statusCollisionCount :: "UnitedDeployment \<Rightarrow> int32" where
  "statusCollisionCount ud = (case CollisionCount (ud_Status ud) of None \<Rightarrow> 0 | Some v \<Rightarrow> v)"

fun writes :: "'o call \<times> error option \<Rightarrow> bool" where
  "writes (CreateCall obj, None) = True"
| "writes (UpdateCall obj, None) = True"
| "writes other = False"

section \<open>The adapter of kind Deployment (\<open>DeploymentAdapter\<close>)\<close>


text \<open>\<open>for k, v := range src { dst[k] = v }\<close>\<close>

definition assignAll :: "string_map \<Rightarrow> string_map \<Rightarrow> string_map" where
  "assignAll src dst = fold (\<lambda>(k, v). AList.update k v) src dst"

text \<open>
  Modelled from the spec: \<open>getPoolPrefix\<close> is not in the files at hand; the generated
  name prefix has the form \<open><resource-name>-<pool-name>-\<close>.
\<close>

definition getPoolPrefix :: "string \<Rightarrow> string \<Rightarrow> string" where
  "getPoolPrefix controllerName poolName = controllerName @ ''-'' @ poolName @ ''-''"

text \<open>
  \<open>controllerutil.SetControllerReference\<close> of controller-runtime: an object that
  another owner controls is refused.
\<close>

definition SetControllerReference ::
  "UnitedDeployment \<Rightarrow> 'a ObjectMeta_scheme \<Rightarrow> error + 'a ObjectMeta_scheme" where
  "SetControllerReference owner controlled =
     (case ControllerRef controlled of
        Some existing \<Rightarrow>
          if existing \<noteq> Name owner then Inl (AlreadyOwned existing)
          else Inr controlled
      | None \<Rightarrow> Inr (controlled\<lparr>ControllerRef := Some (Name owner)\<rparr>))"

text \<open>
  Modelled from the spec: \<open>PoolHasPatch\<close> is not in the files at hand; it tells
  whether the pool carries a patch.
\<close>

definition PoolHasPatch :: "v1alpha1_Pool \<Rightarrow> 'a ObjectMeta_scheme \<Rightarrow> bool" where
  "PoolHasPatch poolConfig obj \<longleftrightarrow> Patch poolConfig \<noteq> None"

text \<open>
  Modelled from the spec: \<open>CreateNewPatchedObject\<close> is not in the files at hand. It
  serializes the fully built live object, merges the patch document over it
  (\<open>mergeDoc\<close>), deserializes the result, and records the raw patch in the
  last-applied-patch annotation. \<open>json.Unmarshal\<close> is the parameter \<open>unmarshal\<close>.
\<close>

definition CreateNewPatchedObject ::
  "(string \<Rightarrow> error + doc) \<Rightarrow> string \<Rightarrow> Deployment \<Rightarrow> error + Deployment" where
  "CreateNewPatchedObject unmarshal patchInfo obj =
     (case unmarshal patchInfo of
        Inl err \<Rightarrow> Inl err
      | Inr patchMap \<Rightarrow>
          (case as_Deployment (mergeDoc (Deployment_doc obj) patchMap) of
             Inl err \<Rightarrow> Inl err
           | Inr newPatched \<Rightarrow>
               Inr (newPatched\<lparr>Annotations :=
                      AList.update AnnotationPatchKey patchInfo (Annotations newPatched)\<rparr>)))"

text \<open>
  \<open>DeploymentAdapter.ApplyPoolTemplate\<close>; \<open>obj\<close> is the object the source calls
  \<open>set\<close>. \<open>attachNodeAffinityAndTolerations\<close> is not
  in the files at hand; it rewrites the pod spec from the pool's node selector term and
  tolerations and is the parameter \<open>attach\<close>. A nil \<open>DeploymentTemplate\<close>, a nil
  selector and the write to a nil \<open>MatchLabels\<close> map panic, each with the object as
  written up to that line.
\<close>

definition DeploymentAdapter_ApplyPoolTemplate ::
  "(doc \<Rightarrow> v1alpha1_Pool \<Rightarrow> doc) \<Rightarrow> (string \<Rightarrow> error + doc) \<Rightarrow> UnitedDeployment \<Rightarrow> string
     \<Rightarrow> string \<Rightarrow> int32 \<Rightarrow> Deployment \<Rightarrow> error option \<times> Deployment" where
  "DeploymentAdapter_ApplyPoolTemplate attach unmarshal ud poolName revision replicas obj =
     (case find (\<lambda>pool. pool_Name pool = poolName) (Pools (Topology (ud_Spec ud))) of
        None \<Rightarrow> (Some (FailFindPoolConfig poolName), obj)
      | Some poolConfig \<Rightarrow>
      (case DeploymentTemplate (WorkloadTemplate (ud_Spec ud)) of
        None \<Rightarrow> (Some (Panic ''nil pointer dereference''), obj\<lparr>Namespace := Namespace ud\<rparr>)
      | Some template \<Rightarrow>
      (case Selector (ud_Spec ud) of
        None \<Rightarrow> (Some (Panic ''nil pointer dereference''),
                 obj\<lparr>Namespace := Namespace ud,
                     Labels := assignAll (dt_Labels template) (Labels obj)\<rparr>)
      | Some selector \<Rightarrow>
      (let matchLabels = (case MatchLabels selector of None \<Rightarrow> [] | Some ml \<Rightarrow> ml);
           set1 = obj\<lparr>Namespace := Namespace ud,
                      Labels := AList.update PoolNameLabelKey poolName
                                  (AList.update ControllerRevisionHashLabelKey revision
                                     (assignAll matchLabels
                                        (assignAll (dt_Labels template) (Labels obj)))),
                      Annotations := assignAll (dt_Annotations template) (Annotations obj),
                      GenerateName := getPoolPrefix (Name ud) poolName\<rparr>
       in case MatchLabels selector of
            None \<Rightarrow> (Some (Panic ''assignment to entry in nil map''), set1)
          | Some ml \<Rightarrow>
          (let selectors = \<lparr>MatchLabels = Some (AList.update PoolNameLabelKey poolName ml)\<rparr> in
           case SetControllerReference ud set1 of
             Inl err \<Rightarrow> (Some err, set1)
           | Inr set2 \<Rightarrow>
             (let podTemplate = ds_Template (dt_Spec template);
                  set3 = set2\<lparr>dep_Spec :=
                    \<lparr>ds_Replicas = Some replicas,
                     ds_Selector = Some selectors,
                     ds_Template =
                       podTemplate\<lparr>tmpl_Labels :=
                                     AList.update ControllerRevisionHashLabelKey revision
                                       (AList.update PoolNameLabelKey poolName
                                          (tmpl_Labels podTemplate)),
                                   tmpl_Spec := attach (tmpl_Spec podTemplate) poolConfig\<rparr>,
                     ds_Strategy = ds_Strategy (dt_Spec template),
                     ds_MinReadySeconds = ds_MinReadySeconds (dt_Spec template),
                     ds_RevisionHistoryLimit = RevisionHistoryLimit (ud_Spec ud),
                     ds_Paused = ds_Paused (dt_Spec template),
                     ds_ProgressDeadlineSeconds = ds_ProgressDeadlineSeconds (dt_Spec template)\<rparr>\<rparr>
              in if \<not> PoolHasPatch poolConfig set3 then (None, set3)
                 else (case Patch poolConfig of
                         None \<Rightarrow> (Some (Panic ''nil pointer dereference''), set3)
                       | Some raw \<Rightarrow>
                           (case CreateNewPatchedObject unmarshal raw set3 of
                              Inl err \<Rightarrow> (Some err, set3)
                            | Inr patched \<Rightarrow> (None, patched)))))))))"


definition emptyDeployment :: Deployment where
  "emptyDeployment =
     \<lparr>Name = [], Namespace = [], GenerateName = [], Labels = [], Annotations = [],
      ControllerRef = None, CreationTimestamp = 0,
      dep_Spec = \<lparr>ds_Replicas = None, ds_Selector = None,
                  ds_Template = \<lparr>tmpl_Labels = [], tmpl_Annotations = [], tmpl_Spec = DNull\<rparr>,
                  ds_Strategy = DNull, ds_MinReadySeconds = 0, ds_RevisionHistoryLimit = None,
                  ds_Paused = False, ds_ProgressDeadlineSeconds = None\<rparr>\<rparr>"


text \<open>The value at a path of a document; a missing key reads as null.\<close>

fun docPath :: "string list \<Rightarrow> doc \<Rightarrow> doc" where
  "docPath [] d = d"
| "docPath (k # ks) (DMap m) = docPath ks (field m k)"
| "docPath (k # ks) _ = DNull"

section \<open>\<open>PoolControl.UpdatePool\<close>\<close>






definition fault_at :: "error option list \<Rightarrow> nat \<Rightarrow> error option" where
  "fault_at fs i = (if i < length fs then fs ! i else None)"

section \<open>Pool provisioning (\<open>managePools\<close> and \<open>managePoolProvision\<close>)\<close>

text \<open>
  \<open>r.poolControls\<close> maps each template type to a \<open>ControlInterface\<close>. The model
  takes the answers of its store-facing methods as functions of their arguments: what
  each call of the pass returned. Events and log lines are not modelled.
  \<open>slowStartInitialBatchSize\<close> is a constant declared outside the files at hand and
  is a parameter here.
\<close>

record ControlInterface =
  GetAllPools :: "UnitedDeployment \<Rightarrow> error + Pool list"
  CreatePool :: "UnitedDeployment \<Rightarrow> string \<Rightarrow> string \<Rightarrow> int32 \<Rightarrow> error option"
  UpdatePool :: "Pool \<Rightarrow> UnitedDeployment \<Rightarrow> string \<Rightarrow> int32 \<Rightarrow> error option"
  DeletePool :: "Pool \<Rightarrow> error option"

record ReconcileUnitedDeployment =
  poolControls :: "TemplateType \<Rightarrow> ControlInterface"




text \<open>\<open>sets.String\<close> is a set of strings; \<open>List()\<close> gives its members sorted.\<close>

definition sets_List :: "string set \<Rightarrow> string list" where
  "sets_List s = sorted_list_of_set s"

definition expectedPools :: "UnitedDeployment \<Rightarrow> string set" where
  "expectedPools ud = set (map pool_Name (Pools (Topology (ud_Spec ud))))"

definition gotPools :: "(string \<times> Pool) list \<Rightarrow> string set" where
  "gotPools nameToPool = set (map fst nameToPool)"

definition creates :: "UnitedDeployment \<Rightarrow> (string \<times> Pool) list \<Rightarrow> string list" where
  "creates ud nameToPool =
     filter (\<lambda>expectPool. \<not> expectPool \<in> gotPools nameToPool) (sets_List (expectedPools ud))"

definition deletes :: "UnitedDeployment \<Rightarrow> (string \<times> Pool) list \<Rightarrow> string list" where
  "deletes ud nameToPool =
     filter (\<lambda>gotPool. \<not> gotPool \<in> expectedPools ud) (sets_List (gotPools nameToPool))"

text \<open>
  The function handed to \<open>SlowStartBatch\<close> for the creates. An index outside
  \<open>createdPools\<close> would panic; \<open>SlowStartBatch\<close> never passes one.
\<close>

definition createPoolFn ::
  "ReconcileUnitedDeployment \<Rightarrow> UnitedDeployment \<Rightarrow> (string \<times> UnitedDeploymentPatches) list
     \<Rightarrow> string \<Rightarrow> TemplateType \<Rightarrow> string list \<Rightarrow> int \<Rightarrow> error option" where
  "createPoolFn r ud nextPatches revision workloadType createdPools idx =
     (if 0 \<le> idx \<and> idx < int (length createdPools) then
        (let poolName = createdPools ! nat idx;
             replicas = np_Replicas (nextPatch nextPatches poolName)
         in case CreatePool (poolControls r workloadType) ud poolName revision replicas of
              Some err \<Rightarrow>
                if \<not> IsTimeout err then Some (FailCreatePool workloadType poolName err)
                else None
            | None \<Rightarrow> None)
      else Some (Panic ''index out of range''))"

text \<open>The call of \<open>SlowStartBatch\<close> for the creates, and the errors it adds to \<open>errs\<close>.\<close>

definition createBatch ::
  "ReconcileUnitedDeployment \<Rightarrow> (error list \<Rightarrow> nat) \<Rightarrow> int \<Rightarrow> UnitedDeployment
     \<Rightarrow> (string \<times> Pool) list \<Rightarrow> (string \<times> UnitedDeploymentPatches) list \<Rightarrow> string
     \<Rightarrow> TemplateType \<Rightarrow> error batch_run" where
  "createBatch r sched slowStartInitialBatchSize ud nameToPool nextPatches revision workloadType =
     SlowStartBatch sched (int (length (creates ud nameToPool))) slowStartInitialBatchSize
       (createPoolFn r ud nextPatches revision workloadType (creates ud nameToPool))"

definition createErrs ::
  "ReconcileUnitedDeployment \<Rightarrow> (error list \<Rightarrow> nat) \<Rightarrow> int \<Rightarrow> UnitedDeployment
     \<Rightarrow> (string \<times> Pool) list \<Rightarrow> (string \<times> UnitedDeploymentPatches) list \<Rightarrow> string
     \<Rightarrow> TemplateType \<Rightarrow> error list" where
  "createErrs r sched slowStartInitialBatchSize ud nameToPool nextPatches revision workloadType =
     (if length (creates ud nameToPool) > 0 then
        (case batch_err (createBatch r sched slowStartInitialBatchSize ud nameToPool nextPatches
                           revision workloadType) of
           None \<Rightarrow> []
         | Some createdErr \<Rightarrow> [createdErr])
      else [])"

text \<open>
  The sequential delete loop. \<open>nameToPool[poolName]\<close> of a missing key is a nil pool,
  whose fields cannot be read.
\<close>

fun deleteErrs ::
  "ReconcileUnitedDeployment \<Rightarrow> (string \<times> Pool) list \<Rightarrow> TemplateType \<Rightarrow> string list
     \<Rightarrow> error + error list" where
  "deleteErrs r nameToPool workloadType [] = Inr []"
| "deleteErrs r nameToPool workloadType (poolName # rest) =
     (case map_of nameToPool poolName of
        None \<Rightarrow> Inl (Panic ''nil pointer dereference'')
      | Some pool \<Rightarrow>
          (case deleteErrs r nameToPool workloadType rest of
             Inl p \<Rightarrow> Inl p
           | Inr errs \<Rightarrow>
               Inr ((case DeletePool (poolControls r workloadType) pool of
                       Some err \<Rightarrow> [FailDeletePool workloadType (p_Namespace pool) (p_Name pool)
                                      poolName err]
                     | None \<Rightarrow> []) @ errs)))"

text \<open>
  The cleanup of the pools of the other kinds. The range over the map
  \<open>r.poolControls\<close> visits the two template types; \<open>cleaned\<close> is set by the first
  pool found, before its delete is tried.
\<close>

definition cleanOtherPools ::
  "ReconcileUnitedDeployment \<Rightarrow> UnitedDeployment \<Rightarrow> TemplateType \<Rightarrow> TemplateType \<Rightarrow> bool \<times> error list" where
  "cleanOtherPools r ud workloadType t =
     (if t = workloadType then (False, [])
      else (case GetAllPools (poolControls r t) ud of
              Inl err \<Rightarrow> (False, [FailListOtherPools t (Namespace ud) (Name ud) err])
            | Inr pools \<Rightarrow>
                (pools \<noteq> [],
                 concat (map (\<lambda>pool. case DeletePool (poolControls r t) pool of
                                        Some err \<Rightarrow> [FailDeleteOtherPool (p_Name pool) t
                                                       (Namespace ud) (Name ud) err]
                                      | None \<Rightarrow> []) pools))))"

definition managePoolProvision ::
  "ReconcileUnitedDeployment \<Rightarrow> (error list \<Rightarrow> nat) \<Rightarrow> int \<Rightarrow> UnitedDeployment
     \<Rightarrow> (string \<times> Pool) list \<Rightarrow> (string \<times> UnitedDeploymentPatches) list
     \<Rightarrow> ControllerRevision \<Rightarrow> TemplateType \<Rightarrow> error + (string set \<times> bool \<times> error option)" where
  "managePoolProvision r sched slowStartInitialBatchSize ud nameToPool nextPatches
     expectedRevision workloadType =
     (let revision = Name expectedRevision;
          errs1 = createErrs r sched slowStartInitialBatchSize ud nameToPool nextPatches
                    revision workloadType
      in case (if length (deletes ud nameToPool) > 0
               then deleteErrs r nameToPool workloadType (deletes ud nameToPool)
               else Inr []) of
           Inl p \<Rightarrow> Inl p
         | Inr errs2 \<Rightarrow>
             (let other = map (cleanOtherPools r ud workloadType)
                            [StatefulSetTemplateType, DeploymentTemplateType];
                  cleaned = list_ex fst other;
                  errs3 = concat (map snd other)
              in Inr (expectedPools ud \<inter> gotPools nameToPool,
                      length (creates ud nameToPool) > 0 \<or> length (deletes ud nameToPool) > 0
                        \<or> cleaned,
                      NewAggregate (errs1 @ errs2 @ errs3))))"










section \<open>Concrete inputs\<close>

text \<open>The inputs at which the theorems below are instantiated.\<close>

definition always_ok :: "int \<Rightarrow> error option" where
  "always_ok i = None"

definition fails_at_4 :: "int \<Rightarrow> error option" where
  "fails_at_4 i = (if i = 4 then Some (ServerError ''boom'') else None)"

definition first_sent :: "error list \<Rightarrow> nat" where
  "first_sent errCh = 0"

definition rev_named :: "string \<Rightarrow> int64 \<Rightarrow> string \<Rightarrow> ControllerRevision" where
  "rev_named n v d =
     \<lparr>Name = n, Namespace = ''default'', GenerateName = [], Labels = [(''app'', ''web'')],
      Annotations = [], ControllerRef = Some ''web'', CreationTimestamp = 0,
      Revision = v, Data = d\<rparr>"

definition example_template :: DeploymentTemplateSpec where
  "example_template =
     \<lparr>dt_Labels = [(''app'', ''web'')], dt_Annotations = [],
      dt_Spec = \<lparr>ds_Replicas = None, ds_Selector = None,
                 ds_Template = \<lparr>tmpl_Labels = [(''app'', ''web'')], tmpl_Annotations = [],
                                 tmpl_Spec = DMap [(''containers'', DList [DStr ''nginx''])]\<rparr>,
                 ds_Strategy = DNull, ds_MinReadySeconds = 0, ds_RevisionHistoryLimit = None,
                 ds_Paused = False, ds_ProgressDeadlineSeconds = None\<rparr>\<rparr>"

definition example_ud :: "int32 \<Rightarrow> string \<Rightarrow> v1alpha1_Pool list \<Rightarrow> UnitedDeployment" where
  "example_ud limit current pools =
     \<lparr>Name = ''web'', Namespace = ''default'', GenerateName = [], Labels = [], Annotations = [],
      ControllerRef = None, CreationTimestamp = 0,
      ud_Spec = \<lparr>Selector = Some \<lparr>MatchLabels = Some [(''app'', ''web'')]\<rparr>,
                 WorkloadTemplate = \<lparr>StatefulSetTemplate = None,
                                      DeploymentTemplate = Some example_template\<rparr>,
                 Topology = \<lparr>Pools = pools\<rparr>,
                 RevisionHistoryLimit = Some limit\<rparr>,
      ud_Status = \<lparr>CollisionCount = None, CurrentRevision = current, Conditions = []\<rparr>\<rparr>"

definition quiet_cluster :: "'o list \<Rightarrow> 'o cluster" where
  "quiet_cluster objs = \<lparr>objects = objs, faults = [], calls = []\<rparr>"

definition rev_a :: ControllerRevision where "rev_a = rev_named ''web-a'' 1 ''template-1''"
definition rev_b :: ControllerRevision where "rev_b = rev_named ''web-b'' 2 ''template-2''"
definition rev_c :: ControllerRevision where "rev_c = rev_named ''web-c'' 3 ''template-3''"

definition example_pool :: "string \<Rightarrow> string \<Rightarrow> int32 \<Rightarrow> Pool" where
  "example_pool name hash replicas =
     \<lparr>p_Name = name, p_Namespace = ''default'',
      PoolRef = \<lparr>Name = ''web-'' @ name @ ''-x2x4z'', Namespace = ''default'',
                 GenerateName = ''web-'' @ name @ ''-'',
                 Labels = [(PoolNameLabelKey, name), (ControllerRevisionHashLabelKey, hash)],
                 Annotations = [], ControllerRef = Some ''web'', CreationTimestamp = 0\<rparr>,
      ObservedGeneration = 1, Replicas = replicas, ReadyReplicas = replicas, PatchInfo = []\<rparr>"

definition topology_pool :: "string \<Rightarrow> int32 \<Rightarrow> string option \<Rightarrow> v1alpha1_Pool" where
  "topology_pool name replicas patch =
     \<lparr>pool_Name = name, NodeSelectorTerm = DNull, Tolerations = DNull,
      pool_Replicas = Some replicas, Patch = patch\<rparr>"

definition pools_ABC :: "v1alpha1_Pool list" where
  "pools_ABC = [topology_pool ''A'' 2 None, topology_pool ''B'' 2 None, topology_pool ''C'' 2 None]"

definition live_BCD :: "(string \<times> Pool) list" where
  "live_BCD = [(''B'', example_pool ''B'' ''web-c'' 2), (''C'', example_pool ''C'' ''web-b'' 2),
               (''D'', example_pool ''D'' ''web-c'' 2)]"

definition patches_ABC :: "(string \<times> UnitedDeploymentPatches) list" where
  "patches_ABC = [(''A'', \<lparr>np_Replicas = 2, np_Patch = []\<rparr>),
                  (''B'', \<lparr>np_Replicas = 2, np_Patch = []\<rparr>),
                  (''C'', \<lparr>np_Replicas = 2, np_Patch = []\<rparr>)]"

text \<open>
  A reconciler whose every create and delete fails with a server error, one whose
  creates time out, and one that finds a pool of kind StatefulSet left over.
\<close>

definition control_of ::
  "error option \<Rightarrow> error option \<Rightarrow> Pool list \<Rightarrow> ControlInterface" where
  "control_of created deleted found =
     \<lparr>GetAllPools = (\<lambda>ud. Inr found),
      CreatePool = (\<lambda>ud poolName revision replicas. created),
      UpdatePool = (\<lambda>pool ud revision replicas. None),
      DeletePool = (\<lambda>pool. deleted)\<rparr>"

definition failing_reconciler :: ReconcileUnitedDeployment where
  "failing_reconciler =
     \<lparr>poolControls = (\<lambda>t. case t of
         DeploymentTemplateType \<Rightarrow>
           control_of (Some (ServerError ''down'')) (Some (ServerError ''down'')) []
       | StatefulSetTemplateType \<Rightarrow>
           control_of None (Some (ServerError ''down'')) [example_pool ''S'' ''web-a'' 1])\<rparr>"

definition timeout_reconciler :: ReconcileUnitedDeployment where
  "timeout_reconciler =
     \<lparr>poolControls = (\<lambda>t. control_of (Some Timeout) None [])\<rparr>"





text \<open>
  An adapter of kind Deployment that leaves the pod spec alone and knows two patches, the
  live Deployment of pool \<open>B\<close>, and a cluster that holds it and whose updates fail
  with the given errors, one per attempt.
\<close>

definition no_affinity :: "doc \<Rightarrow> v1alpha1_Pool \<Rightarrow> doc" where
  "no_affinity podSpec poolConfig = podSpec"

definition replicas_5_patch :: string where
  "replicas_5_patch = ''{spec: {replicas: 5}}''"

definition paused_patch :: string where
  "paused_patch = ''{spec: {paused: true}}''"

definition example_unmarshal :: "string \<Rightarrow> error + doc" where
  "example_unmarshal raw =
     (if raw = replicas_5_patch then Inr (DMap [(''spec'', DMap [(''replicas'', DInt 5)])])
      else if raw = paused_patch then Inr (DMap [(''spec'', DMap [(''paused'', DBool True)])])
      else Inl (PatchError ''invalid character''))"





text \<open>
  A topology whose pool \<open>A\<close> has 3 replicas and a patch that sets 5, whose pool
  \<open>B\<close> has no patch and whose pool \<open>C\<close> has a patch that pauses the rollout.
\<close>

definition pools_patched :: "v1alpha1_Pool list" where
  "pools_patched = [topology_pool ''A'' 3 (Some replicas_5_patch), topology_pool ''B'' 3 None,
                    topology_pool ''C'' 3 (Some paused_patch)]"

text \<open>
  A hash that maps the collision counts 0 and 2147483647 to the same name and every
  other count to a second name, and a candidate revision of \<open>web\<close> with the given
  content.
\<close>

definition example_hash :: "ControllerRevision \<Rightarrow> int32 \<Rightarrow> string" where
  "example_hash revision collisionCount =
     (if collisionCount = 0 \<or> collisionCount = 2147483647 then ''a'' else ''fresh'')"

definition rev_candidate :: "string \<Rightarrow> ControllerRevision" where
  "rev_candidate d = rev_named ''web'' 4 d"
section \<open>Unfolding the concrete inputs\<close>

lemmas example_defs = rev_a_def rev_b_def rev_c_def rev_named_def example_ud_def
  example_template_def quiet_cluster_def

section \<open>Properties of \<open>SlowStartBatch\<close>\<close>

lemma map_filter_Nil_iff: "List.map_filter f xs = [] \<longleftrightarrow> (\<forall>x\<in>set xs. f x = None)"
  by (induction xs) (auto simp: List.map_filter_simps split: option.splits)

lemma length_map_filter: "length (List.map_filter f xs) = length (filter (\<lambda>x. f x \<noteq> None) xs)"
  by (induction xs) (auto simp: List.map_filter_simps split: option.splits)

lemma set_map_filter: "set (List.map_filter f xs) = {y. \<exists>x\<in>set xs. f x = Some y}"
  by (induction xs) (auto simp: List.map_filter_simps split: option.splits)

lemma recv_in: "errCh \<noteq> [] \<Longrightarrow> recv sched errCh \<in> set errCh"
  by (simp add: recv_def)

lemma filter_split_length: "length (filter P xs) + length (filter (\<lambda>x. \<not> P x) xs) = length xs"
  by (induction xs) auto

lemma slowStartLoop_shape:
  "b \<le> rem \<Longrightarrow> \<exists>bs. loop_shape fn b rem succ index done (slowStartLoop sched fn b rem succ index done) bs"
proof (induction sched fn b rem succ index "done" rule: slowStartLoop.induct)
  case (1 sched fn batchSize remaining succ index "done")
  show ?case
  proof (cases "batchSize > 0")
    case False
    then have "slowStartLoop sched fn batchSize remaining succ index done = \<lparr>batches = done, successes = succ, batch_err = None\<rparr>"
      by (subst slowStartLoop.simps) simp
    then have "loop_shape fn batchSize remaining succ index done (slowStartLoop sched fn batchSize remaining succ index done) []"
      using False by (simp add: loop_shape_def)
    then show ?thesis ..
  next
    case pos: True
    define idxs where "idxs = [index .. index + batchSize - 1]"
    define errCh where "errCh = List.map_filter fn idxs"
    have len: "int (length idxs) = batchSize" using pos by (simp add: idxs_def)
    show ?thesis
    proof (cases "errCh = []")
      case False
      have r: "slowStartLoop sched fn batchSize remaining succ index done =
            \<lparr>batches = done @ [idxs], successes = succ + (batchSize - int (length errCh)), batch_err = Some (recv sched errCh)\<rparr>"
        using pos False by (subst slowStartLoop.simps) (simp add: Let_def idxs_def errCh_def)
      have "recv sched errCh \<in> set errCh" using False by (rule recv_in)
      then obtain i where i: "i \<in> set idxs" "fn i = Some (recv sched errCh)"
        by (auto simp: errCh_def set_map_filter)
      have cnt: "batchSize - int (length errCh) = int (length (filter (\<lambda>i. fn i = None) idxs))"
        using filter_split_length[of "\<lambda>i. fn i = None" idxs] len
        by (simp add: errCh_def length_map_filter)
      have "loop_shape fn batchSize remaining succ index done (slowStartLoop sched fn batchSize remaining succ index done) [idxs]"
        unfolding loop_shape_def r using i cnt pos len by (auto simp: idxs_def)
      then show ?thesis ..
    next
      case True
      define R where "R = slowStartLoop sched fn (min (2 * batchSize) (remaining - batchSize))
                   (remaining - batchSize) (succ + (batchSize - int (length errCh))) (index + batchSize) (done @ [idxs])"
      have r: "slowStartLoop sched fn batchSize remaining succ index done = R"
        using pos True by (subst slowStartLoop.simps) (simp add: Let_def idxs_def errCh_def R_def)
      have allok: "\<forall>i\<in>set idxs. fn i = None" using True by (simp add: errCh_def map_filter_Nil_iff)
      have nf: "\<not> 0 < length errCh" using True by simp
      have le: "min (2 * batchSize) (remaining - batchSize) \<le> remaining - batchSize" by simp
      from "1.IH"[OF pos idxs_def errCh_def refl refl nf le]
      obtain bs where bs: "loop_shape fn (min (2 * batchSize) (remaining - batchSize))
                   (remaining - batchSize) (succ + (batchSize - int (length errCh))) (index + batchSize) (done @ [idxs]) R bs"
        unfolding R_def by blast
      have cat: "concat (idxs # bs) = [index .. index + int (length (concat (idxs # bs))) - 1]"
      proof -
        have c: "concat bs = [index + batchSize .. index + batchSize + int (length (concat bs)) - 1]"
          using bs by (simp add: loop_shape_def)
        have "[index .. index + batchSize + int (length (concat bs)) - 1]
              = [index .. index + batchSize - 1] @ [index + batchSize .. index + batchSize + int (length (concat bs)) - 1]"
          using pos upto_split2[of index "index + batchSize - 1" "index + batchSize + int (length (concat bs)) - 1"]
          by simp
        then show ?thesis using c len by (simp add: idxs_def add.assoc)
      qed
      have filt: "filter (\<lambda>i. fn i = None) idxs = idxs" using allok by simp
      have "loop_shape fn batchSize remaining succ index done R (idxs # bs)"
        unfolding loop_shape_def
        apply (intro conjI)
        subgoal using bs by (simp add: loop_shape_def)
        subgoal using bs pos len by (simp add: loop_shape_def)
        subgoal using cat .
        subgoal using bs filt len True by (simp add: loop_shape_def)
        subgoal using bs allok pos len "1.prems" by (auto simp: loop_shape_def split: option.splits if_splits)
        done
      then show ?thesis unfolding r ..
    qed
  qed
qed


lemma doubling_capped_sum:
  "doubling_capped b rem ss \<Longrightarrow> b \<le> rem \<Longrightarrow> ss \<noteq> [] \<Longrightarrow> sum_list ss \<le> rem"
proof (induction b rem ss rule: doubling_capped.induct)
  case (1 b rem)
  then show ?case by simp
next
  case (2 b rem s ss)
  show ?case
  proof (cases ss)
    case Nil
    then show ?thesis using 2 by simp
  next
    case (Cons a list)
    then have "sum_list ss \<le> rem - b" using 2 by simp
    then show ?thesis using 2 by simp
  qed
qed

lemma length_concat_int: "int (length (concat bs)) = sum_list (map (\<lambda>xs. int (length xs)) bs)"
  by (induction bs) auto

lemma SlowStartBatch_run_ok:
  assumes "0 \<le> count" and "1 \<le> initialBatchSize"
    and "\<forall>i. 0 \<le> i \<and> i < count \<longrightarrow> fn i = None"
  shows "doubling_capped (min count initialBatchSize) count
           (map (\<lambda>xs. int (length xs)) (batches (SlowStartBatch sched count initialBatchSize fn)))
       \<and> concat (batches (SlowStartBatch sched count initialBatchSize fn)) = [0 .. count - 1]
       \<and> successes (SlowStartBatch sched count initialBatchSize fn) = count
       \<and> batch_err (SlowStartBatch sched count initialBatchSize fn) = None"
proof -
  define r where "r = SlowStartBatch sched count initialBatchSize fn"
  define b where "b = min count initialBatchSize"
  have "b \<le> count" by (simp add: b_def)
  from slowStartLoop_shape[OF this, of fn 0 0 "[]" sched]
  obtain bs where sh: "loop_shape fn b count 0 0 [] r bs"
    unfolding r_def SlowStartBatch_def b_def by blast
  have bt: "batches r = bs" and rp: "doubling_capped b count (map (\<lambda>xs. int (length xs)) bs)"
    and cat: "concat bs = [0 .. int (length (concat bs)) - 1]"
    and sc: "successes r = int (length (filter (\<lambda>i. fn i = None) (concat bs)))"
    using sh by (simp_all add: loop_shape_def)
  have bound: "int (length (concat bs)) \<le> count"
  proof (cases "bs = []")
    case True then show ?thesis using assms by simp
  next
    case False
    then show ?thesis
      using doubling_capped_sum[OF rp \<open>b \<le> count\<close>] by (simp add: length_concat_int)
  qed
  have ok: "\<forall>i\<in>set (concat bs). fn i = None"
  proof
    fix i assume "i \<in> set (concat bs)"
    then have "i \<in> set [0 .. int (length (concat bs)) - 1]" using cat by simp
    then show "fn i = None" using bound assms(3) by simp
  qed
  have noerr: "batch_err r = None"
  proof (cases "batch_err r")
    case None then show ?thesis .
  next
    case (Some e)
    then have "bs \<noteq> []" "\<exists>i\<in>set (last bs). fn i = Some e"
      using sh by (simp_all add: loop_shape_def)
    then have "\<exists>i\<in>set (concat bs). fn i = Some e"
      by (metis last_in_set set_concat UN_I)
    then show ?thesis using ok by auto
  qed
  have full: "int (length (concat bs)) = count"
  proof (cases "0 < b")
    case True
    then show ?thesis using sh noerr by (simp add: loop_shape_def)
  next
    case False
    then have "count = 0" using assms by (simp add: b_def)
    moreover have "bs = []" using sh noerr False by (simp add: loop_shape_def)
    ultimately show ?thesis by simp
  qed
  have "filter (\<lambda>i. fn i = None) (concat bs) = concat bs" using ok by simp
  then have "successes r = count" using sc full by simp
  then show ?thesis using bt rp cat full noerr unfolding r_def b_def by simp
qed

text \<open>
  C5 (as amended). For every \<open>count \<ge> 0\<close> and \<open>initialBatchSize \<ge> 1\<close>, when no
  call fails, the batch sizes start at \<open>min count initialBatchSize\<close> and double after
  each batch, capped at the remaining count; the function is called exactly once per
  index \<open>0 .. count - 1\<close>, in order; the result is \<open>(count, nil)\<close>. The witness is the
  run with \<open>count = 10\<close> and \<open>initialBatchSize = 1\<close>: batch sizes 1, 2, 4, 3.
\<close>

theorem SlowStartBatch_all_succeed:
  assumes "0 \<le> count" and "1 \<le> initialBatchSize"
    and "\<forall>i. 0 \<le> i \<and> i < count \<longrightarrow> fn i = None"
  shows "doubling_capped (min count initialBatchSize) count
           (map (\<lambda>xs. int (length xs)) (batches (SlowStartBatch sched count initialBatchSize fn)))
       \<and> concat (batches (SlowStartBatch sched count initialBatchSize fn)) = [0 .. count - 1]
       \<and> successes (SlowStartBatch sched count initialBatchSize fn) = count
       \<and> batch_err (SlowStartBatch sched count initialBatchSize fn) = None"
  using assms by (rule SlowStartBatch_run_ok)

theorem SlowStartBatch_all_succeed_witness:
  "(0::int) \<le> 10 \<and> (1::int) \<le> 1
   \<and> batches (SlowStartBatch first_sent 10 1 always_ok) = [[0], [1, 2], [3, 4, 5, 6], [7, 8, 9]]
   \<and> map length (batches (SlowStartBatch first_sent 10 1 always_ok)) = [1, 2, 4, 3]
   \<and> concat (batches (SlowStartBatch first_sent 10 1 always_ok)) = [0 .. 10 - 1]
   \<and> successes (SlowStartBatch first_sent 10 1 always_ok) = 10
   \<and> batch_err (SlowStartBatch first_sent 10 1 always_ok) = None"
proof -
  have h: "\<forall>i. 0 \<le> i \<and> i < 10 \<longrightarrow> always_ok i = None" by (simp add: always_ok_def)
  have ev: "batches (SlowStartBatch first_sent 10 1 always_ok) = [[0], [1, 2], [3, 4, 5, 6], [7, 8, 9]]"
    by code_simp
  show ?thesis
    using SlowStartBatch_all_succeed[of 10 1 always_ok first_sent] h ev by simp
qed

text \<open>
  C5 as stated, for every \<open>count\<close> and \<open>initialBatchSize\<close>, fails: with
  \<open>initialBatchSize = 0\<close> the loop is not entered, no call is made and the result is
  \<open>(0, nil)\<close>, not \<open>(5, nil)\<close>.
\<close>

theorem SlowStartBatch_zero_initial_counterexample:
  "successes (SlowStartBatch first_sent 5 0 always_ok) = 0
   \<and> batches (SlowStartBatch first_sent 5 0 always_ok) = []
   \<and> batch_err (SlowStartBatch first_sent 5 0 always_ok) = None"
  by (simp add: SlowStartBatch_def slowStartLoop.simps)

lemma SlowStartBatch_run_fail:
  assumes "\<exists>i\<in>set (concat (batches (SlowStartBatch sched count initialBatchSize fn))). fn i \<noteq> None"
  shows "\<exists>pre b e. batches (SlowStartBatch sched count initialBatchSize fn) = pre @ [b]
           \<and> doubling_capped (min count initialBatchSize) count (map (\<lambda>xs. int (length xs)) (pre @ [b]))
           \<and> concat (pre @ [b]) = [0 .. int (length (concat (pre @ [b]))) - 1]
           \<and> (\<forall>i\<in>set (concat pre). fn i = None)
           \<and> successes (SlowStartBatch sched count initialBatchSize fn)
                = int (length (concat pre)) + int (length (filter (\<lambda>i. fn i = None) b))
           \<and> batch_err (SlowStartBatch sched count initialBatchSize fn) = Some e
           \<and> (\<exists>i\<in>set b. fn i = Some e)"
proof -
  define r where "r = SlowStartBatch sched count initialBatchSize fn"
  define b where "b = min count initialBatchSize"
  have "b \<le> count" by (simp add: b_def)
  from slowStartLoop_shape[OF this, of fn 0 0 "[]" sched]
  obtain bs where sh: "loop_shape fn b count 0 0 [] r bs"
    unfolding r_def SlowStartBatch_def b_def by blast
  have bt: "batches r = bs" and rp: "doubling_capped b count (map (\<lambda>xs. int (length xs)) bs)"
    and cat: "concat bs = [0 .. int (length (concat bs)) - 1]"
    and sc: "successes r = int (length (filter (\<lambda>i. fn i = None) (concat bs)))"
    using sh by (simp_all add: loop_shape_def)
  from assms obtain i where i: "i \<in> set (concat bs)" "fn i \<noteq> None"
    using bt unfolding r_def by auto
  have "batch_err r \<noteq> None"
  proof
    assume "batch_err r = None"
    then have "\<forall>i\<in>set (concat bs). fn i = None" using sh by (simp add: loop_shape_def)
    then have "fn i = None" using i(1) by (rule bspec)
    then show False using i(2) by simp
  qed
  then obtain e where e: "batch_err r = Some e" by auto
  then have ne: "bs \<noteq> []" and pre: "\<forall>i\<in>set (concat (butlast bs)). fn i = None"
    and lst: "\<exists>i\<in>set (last bs). fn i = Some e"
    using sh by (simp_all add: loop_shape_def)
  have split: "bs = butlast bs @ [last bs]" using ne by simp
  have "filter (\<lambda>i. fn i = None) (concat (butlast bs)) = concat (butlast bs)" using pre by simp
  then have "length (filter (\<lambda>i. fn i = None) (concat bs))
        = length (concat (butlast bs)) + length (filter (\<lambda>i. fn i = None) (last bs))"
    by (subst split) simp
  then have sc': "successes r = int (length (concat (butlast bs))) + int (length (filter (\<lambda>i. fn i = None) (last bs)))"
    using sc by simp
  have "batches r = butlast bs @ [last bs]
           \<and> doubling_capped b count (map (\<lambda>xs. int (length xs)) (butlast bs @ [last bs]))
           \<and> concat (butlast bs @ [last bs]) = [0 .. int (length (concat (butlast bs @ [last bs]))) - 1]
           \<and> (\<forall>i\<in>set (concat (butlast bs)). fn i = None)
           \<and> successes r
                = int (length (concat (butlast bs))) + int (length (filter (\<lambda>i. fn i = None) (last bs)))
           \<and> batch_err r = Some e
           \<and> (\<exists>i\<in>set (last bs). fn i = Some e)"
    using bt rp cat pre sc' e lst split by simp
  then show ?thesis unfolding r_def b_def by blast
qed


lemma SlowStartBatch_reaches_failure:
  assumes "1 \<le> initialBatchSize" and "0 \<le> i" and "i < count" and "fn i \<noteq> None"
  shows "\<exists>j\<in>set (concat (batches (SlowStartBatch sched count initialBatchSize fn))). fn j \<noteq> None"
proof -
  define r where "r = SlowStartBatch sched count initialBatchSize fn"
  define b where "b = min count initialBatchSize"
  have le: "b \<le> count" by (simp add: b_def)
  have pos: "0 < b" using assms(1-3) by (simp add: b_def)
  from slowStartLoop_shape[OF le, of fn 0 0 "[]" sched]
  obtain bs where sh: "loop_shape fn b count 0 0 [] r bs"
    unfolding r_def SlowStartBatch_def b_def by blast
  have bt: "batches r = bs" and cat: "concat bs = [0 .. int (length (concat bs)) - 1]"
    using sh by (simp_all add: loop_shape_def)
  show ?thesis
  proof (cases "batch_err r")
    case None
    then have ok: "\<forall>i\<in>set (concat bs). fn i = None" and full: "int (length (concat bs)) = count"
      using sh pos by (simp_all add: loop_shape_def)
    have "i \<in> set [0 .. int (length (concat bs)) - 1]" using assms(2,3) full by simp
    then have "i \<in> set (concat bs)" using cat by simp
    then have "fn i = None" using ok by (rule bspec[rotated])
    then show ?thesis using assms(4) by simp
  next
    case (Some e)
    then have "bs \<noteq> []" "\<exists>i\<in>set (last bs). fn i = Some e"
      using sh by (simp_all add: loop_shape_def)
    then obtain j where "j \<in> set (last bs)" "fn j = Some e" by blast
    then have "j \<in> set (concat bs)" "fn j \<noteq> None"
      using \<open>bs \<noteq> []\<close> by (auto intro: last_in_set)
    then show ?thesis using bt unfolding r_def by blast
  qed
qed

lemma SlowStartBatch_run_fail_at:
  assumes "1 \<le> initialBatchSize" and "0 \<le> m" and "m < count" and "fn m \<noteq> None"
    and "\<forall>i. 0 \<le> i \<and> i < m \<longrightarrow> fn i = None"
  shows "\<exists>pre b e. batches (SlowStartBatch sched count initialBatchSize fn) = pre @ [b]
           \<and> doubling_capped (min count initialBatchSize) count (map (\<lambda>xs. int (length xs)) (pre @ [b]))
           \<and> concat (pre @ [b]) = [0 .. int (length (concat (pre @ [b]))) - 1]
           \<and> (\<forall>i\<in>set (concat pre). fn i = None)
           \<and> m \<in> set b
           \<and> successes (SlowStartBatch sched count initialBatchSize fn)
                = int (length (concat pre)) + int (length (filter (\<lambda>i. fn i = None) b))
           \<and> batch_err (SlowStartBatch sched count initialBatchSize fn) = Some e
           \<and> (\<exists>i\<in>set b. fn i = Some e)"
proof -
  from SlowStartBatch_reaches_failure[where fn = fn and i = m, OF assms(1-4)]
  have "\<exists>j\<in>set (concat (batches (SlowStartBatch sched count initialBatchSize fn))). fn j \<noteq> None" .
  from SlowStartBatch_run_fail[OF this]
  obtain pre b e where r:
    "batches (SlowStartBatch sched count initialBatchSize fn) = pre @ [b]"
    "doubling_capped (min count initialBatchSize) count (map (\<lambda>xs. int (length xs)) (pre @ [b]))"
    "concat (pre @ [b]) = [0 .. int (length (concat (pre @ [b]))) - 1]"
    "\<forall>i\<in>set (concat pre). fn i = None"
    "successes (SlowStartBatch sched count initialBatchSize fn)
                = int (length (concat pre)) + int (length (filter (\<lambda>i. fn i = None) b))"
    "batch_err (SlowStartBatch sched count initialBatchSize fn) = Some e"
    "\<exists>i\<in>set b. fn i = Some e"
    by blast
  from r(7) obtain k where k: "k \<in> set b" "fn k = Some e" by blast
  have "\<not> k < m"
  proof
    assume "k < m"
    moreover have "k \<in> set [0 .. int (length (concat (pre @ [b]))) - 1]"
      using k(1) r(3) by (metis UnCI set_append concat_append concat.simps(2) append_Nil2 concat.simps(1))
    then have "0 \<le> k" by simp
    ultimately have "fn k = None" using assms(5) by blast
    then show False using k(2) by simp
  qed
  then have mk: "m \<le> k" by simp
  have "k \<in> set (concat (pre @ [b]))" using k(1) by simp
  then have "k \<in> set [0 .. int (length (concat (pre @ [b]))) - 1]" using r(3) by metis
  then have "k \<le> int (length (concat (pre @ [b]))) - 1" by simp
  then have "m \<in> set [0 .. int (length (concat (pre @ [b]))) - 1]" using mk assms(2) by simp
  then have "m \<in> set (concat (pre @ [b]))" using r(3) by metis
  moreover have "m \<notin> set (concat pre)"
  proof
    assume "m \<in> set (concat pre)"
    with r(4) have "fn m = None" by (rule bspec)
    then show False using assms(4) by simp
  qed
  ultimately have "m \<in> set b" by simp
  then show ?thesis using r by blast
qed

lemma least_failing:
  fixes fn :: "int \<Rightarrow> 'e option"
  assumes "0 \<le> i" "i < count" "fn i \<noteq> None"
  shows "\<exists>m. 0 \<le> m \<and> m \<le> i \<and> fn m \<noteq> None \<and> (\<forall>j. 0 \<le> j \<and> j < m \<longrightarrow> fn j = None)"
proof -
  define F where "F = {j. 0 \<le> j \<and> j \<le> i \<and> fn j \<noteq> None}"
  have "F \<subseteq> {0 .. i}" unfolding F_def by auto
  then have fin: "finite F" by (rule finite_subset) simp
  have ne: "F \<noteq> {}" using assms unfolding F_def by auto
  define m where "m = Min F"
  have mF: "m \<in> F" unfolding m_def using fin ne by (rule Min_in)
  have least: "fn j = None" if "0 \<le> j" "j < m" for j
  proof (rule ccontr)
    assume "fn j \<noteq> None"
    moreover have "j \<le> i" using that(2) mF unfolding F_def by simp
    ultimately have "j \<in> F" using that(1) unfolding F_def by simp
    then have "m \<le> j" unfolding m_def using fin by simp
    then show False using that(2) by simp
  qed
  show ?thesis using mF least unfolding F_def by blast
qed

text \<open>
  C6. Let some index below \<open>count\<close> be one at which the function fails, with
  \<open>initialBatchSize \<ge> 1\<close>. Then the batches run are \<open>pre @ [b]\<close>: they follow the ramp
  and cover the indices from 0 on without a gap; every call of \<open>pre\<close> succeeded; \<open>b\<close>
  is the full batch that holds the first failing index \<open>m\<close>; no batch follows it; the
  successes returned are those of \<open>pre\<close> plus those within \<open>b\<close>; and the error
  returned is the error of a call of \<open>b\<close> (the first one the channel hands out).
\<close>

theorem SlowStartBatch_failing_batch:
  assumes "1 \<le> initialBatchSize" and "0 \<le> i" and "i < count" and "fn i \<noteq> None"
  shows "\<exists>pre b e m. batches (SlowStartBatch sched count initialBatchSize fn) = pre @ [b]
           \<and> doubling_capped (min count initialBatchSize) count (map (\<lambda>xs. int (length xs)) (pre @ [b]))
           \<and> concat (pre @ [b]) = [0 .. int (length (concat (pre @ [b]))) - 1]
           \<and> (\<forall>j\<in>set (concat pre). fn j = None)
           \<and> m \<in> set b \<and> fn m \<noteq> None \<and> (\<forall>j. 0 \<le> j \<and> j < m \<longrightarrow> fn j = None)
           \<and> successes (SlowStartBatch sched count initialBatchSize fn)
                = int (length (concat pre)) + int (length (filter (\<lambda>j. fn j = None) b))
           \<and> batch_err (SlowStartBatch sched count initialBatchSize fn) = Some e
           \<and> (\<exists>j\<in>set b. fn j = Some e)"
proof -
  from least_failing[where fn = fn and i = i, OF assms(2-4)]
  obtain m where m: "0 \<le> m" "m \<le> i" "fn m \<noteq> None" "\<forall>j. 0 \<le> j \<and> j < m \<longrightarrow> fn j = None"
    by blast
  have mc: "m < count" using m(2) assms(3) by simp
  from SlowStartBatch_run_fail_at[where fn = fn and m = m and sched = sched,
         OF assms(1) m(1) mc m(3,4)]
  show ?thesis using m(3,4) by blast
qed

theorem SlowStartBatch_failing_batch_witness:
  "(1::int) \<le> 1 \<and> (0::int) \<le> 4 \<and> (4::int) < 10 \<and> fails_at_4 4 \<noteq> None
   \<and> batches (SlowStartBatch first_sent 10 1 fails_at_4) = [[0], [1, 2], [3, 4, 5, 6]]
   \<and> successes (SlowStartBatch first_sent 10 1 fails_at_4) = 6
   \<and> batch_err (SlowStartBatch first_sent 10 1 fails_at_4) = Some (ServerError ''boom'')
   \<and> (\<exists>pre b e m. batches (SlowStartBatch first_sent 10 1 fails_at_4) = pre @ [b]
           \<and> m \<in> set b \<and> fails_at_4 m \<noteq> None
           \<and> successes (SlowStartBatch first_sent 10 1 fails_at_4)
                = int (length (concat pre)) + int (length (filter (\<lambda>j. fails_at_4 j = None) b))
           \<and> batch_err (SlowStartBatch first_sent 10 1 fails_at_4) = Some e
           \<and> (\<exists>j\<in>set b. fails_at_4 j = Some e))"
proof -
  have ev: "batches (SlowStartBatch first_sent 10 1 fails_at_4) = [[0], [1, 2], [3, 4, 5, 6]]"
    "successes (SlowStartBatch first_sent 10 1 fails_at_4) = 6"
    "batch_err (SlowStartBatch first_sent 10 1 fails_at_4) = Some (ServerError ''boom'')"
    by code_simp+
  have h: "(1::int) \<le> 1" "(0::int) \<le> 4" "(4::int) < 10" "fails_at_4 4 \<noteq> None"
    by (simp_all add: fails_at_4_def)
  from SlowStartBatch_failing_batch[where fn = fails_at_4 and i = 4 and sched = first_sent,
         OF h]
  show ?thesis using h ev by blast
qed
section \<open>Properties of the revision history\<close>

lemma filter_key_distinct:
  "distinct (map key_of objs) \<Longrightarrow> obj \<in> set objs
     \<Longrightarrow> filter (\<lambda>old. key_of old \<noteq> key_of obj) objs = filter (\<lambda>old. old \<noteq> obj) objs"
  by (rule filter_cong) (auto simp: distinct_map inj_on_def)

lemma client_Delete_quiet:
  assumes "faults c = []" "distinct (map key_of (objects c))" "obj \<in> set (objects c)"
  shows "client_Delete c obj =
           (None, answer c (DeleteCall obj) None (filter (\<lambda>old. old \<noteq> obj) (objects c)))"
  using assms filter_key_distinct[of "objects c" obj]
  by (simp add: client_Delete_def next_fault_def)

lemma answer_simps [simp]:
  "objects (answer c call result objs) = objs"
  "faults (answer c call result objs) = tl (faults c)"
  "calls (answer c call result objs) = calls c @ [(call, result)]"
  by (simp_all add: answer_def)

lemma cleanLoop_quiet:
  assumes "faults c = []" "distinct (map key_of (objects c))" "distinct rs"
    "set rs \<subseteq> set (objects c)"
  shows "\<exists>c'. cleanLoop live e i rs c = (None, c') \<and> faults c' = []
           \<and> objects c' = filter (\<lambda>obj. obj \<notin> set (filter (\<lambda>r. Name r \<noteq> live) (take (nat (e - i)) rs))) (objects c)"
  using assms
proof (induction rs arbitrary: i c)
  case Nil
  then show ?case by simp
next
  case (Cons r rs)
  show ?case
  proof (cases "Name r = live")
    case True
    have "\<exists>c'. cleanLoop live e (i + 1) rs c = (None, c') \<and> faults c' = []
           \<and> objects c' = filter (\<lambda>obj. obj \<notin> set (filter (\<lambda>r. Name r \<noteq> live) (take (nat (e - (i + 1))) rs))) (objects c)"
      using Cons.prems by (intro Cons.IH) auto
    then obtain c' where c': "cleanLoop live e (i + 1) rs c = (None, c')" "faults c' = []"
      "objects c' = filter (\<lambda>obj. obj \<notin> set (filter (\<lambda>r. Name r \<noteq> live) (take (nat (e - (i + 1))) rs))) (objects c)"
      by blast
    have tk: "filter (\<lambda>r. Name r \<noteq> live) (take (nat (e - i)) (r # rs))
            = filter (\<lambda>r. Name r \<noteq> live) (take (nat (e - (i + 1))) rs)"
    proof (cases "i < e")
      case True
      then have "nat (e - i) = Suc (nat (e - (i + 1)))" by simp
      then show ?thesis using \<open>Name r = live\<close> by simp
    next
      case False
      then show ?thesis by simp
    qed
    show ?thesis using True c' tk by simp
  next
    case False
    show ?thesis
    proof (cases "i \<ge> e")
      case True
      then show ?thesis using False Cons.prems by simp
    next
      case lt: False
      let ?c1 = "answer c (DeleteCall r) None (filter (\<lambda>old. old \<noteq> r) (objects c))"
      have del: "client_Delete c r = (None, ?c1)"
        using Cons.prems by (intro client_Delete_quiet) auto
      have "\<exists>c'. cleanLoop live e (i + 1) rs ?c1 = (None, c') \<and> faults c' = []
           \<and> objects c' = filter (\<lambda>obj. obj \<notin> set (filter (\<lambda>r. Name r \<noteq> live) (take (nat (e - (i + 1))) rs))) (objects ?c1)"
        using Cons.prems by (intro Cons.IH) (auto simp: distinct_map_filter)
      then obtain c' where c': "cleanLoop live e (i + 1) rs ?c1 = (None, c')" "faults c' = []"
        "objects c' = filter (\<lambda>obj. obj \<notin> set (filter (\<lambda>r. Name r \<noteq> live) (take (nat (e - (i + 1))) rs))) (objects ?c1)"
        by blast
      have n: "nat (e - i) = Suc (nat (e - (i + 1)))" using lt by simp
      have "objects c' = filter (\<lambda>obj. obj \<notin> set (filter (\<lambda>r. Name r \<noteq> live) (take (nat (e - i)) (r # rs)))) (objects c)"
        unfolding c'(3) n using False by (auto intro: filter_cong)
      then show ?thesis using False lt del c' by simp
    qed
  qed
qed


lemma length_filter_mem:
  assumes "distinct objs" "distinct xs" "set xs \<subseteq> set objs"
  shows "length (filter (\<lambda>obj. obj \<in> set xs) objs) = length xs"
proof -
  have "distinct (filter (\<lambda>obj. obj \<in> set xs) objs)" using assms(1) by simp
  then have "length (filter (\<lambda>obj. obj \<in> set xs) objs) = card (set (filter (\<lambda>obj. obj \<in> set xs) objs))"
    by (rule distinct_card[symmetric])
  also have "set (filter (\<lambda>obj. obj \<in> set xs) objs) = set xs" using assms(3) by auto
  also have "card (set xs) = length xs" using assms(2) by (simp add: distinct_card)
  finally show ?thesis .
qed

text \<open>
  C1 (as amended). When the history is longer than a retention limit \<open>limit \<ge> 0\<close> and
  every delete succeeds, \<open>cleanExpiredRevision\<close> returns the newest \<open>limit\<close> entries;
  of the history the store keeps exactly these and the older entries named by the
  recorded current revision, which are never deleted; so the stored count is
  \<open>limit\<close> plus the number of over-budget entries of that name. Other objects of the
  store are untouched.
\<close>

theorem cleanExpiredRevision_keeps_current:
  assumes "RevisionHistoryLimit (ud_Spec ud) = Some limit"
    and "0 \<le> sint limit" and "sint limit < int (length sortedRevisions)"
    and "faults c = []" and "distinct (map key_of (objects c))"
    and "distinct sortedRevisions" and "set sortedRevisions \<subseteq> set (objects c)"
  shows "\<exists>c'. cleanExpiredRevision ud sortedRevisions c
                = (Inr (drop (length sortedRevisions - nat (sint limit)) sortedRevisions), c')
           \<and> int (length (drop (length sortedRevisions - nat (sint limit)) sortedRevisions)) = sint limit
           \<and> (\<forall>r\<in>set sortedRevisions. r \<in> set (objects c') \<longleftrightarrow>
                 r \<in> set (drop (length sortedRevisions - nat (sint limit)) sortedRevisions)
                 \<or> Name r = CurrentRevision (ud_Status ud))
           \<and> (\<forall>obj\<in>set (objects c). obj \<notin> set sortedRevisions \<longrightarrow> obj \<in> set (objects c'))
           \<and> int (length (filter (\<lambda>obj. obj \<in> set sortedRevisions) (objects c')))
                = sint limit
                  + int (length (filter (\<lambda>r. Name r = CurrentRevision (ud_Status ud))
                                   (take (length sortedRevisions - nat (sint limit)) sortedRevisions)))"
proof -
  define live where "live = CurrentRevision (ud_Status ud)"
  define e where "e = length sortedRevisions - nat (sint limit)"
  define pruned where "pruned = filter (\<lambda>r. Name r \<noteq> live) (take e sortedRevisions)"
  have epos: "0 < e" "e \<le> length sortedRevisions" using assms(2,3) by (auto simp: e_def)
  have eint: "int (length sortedRevisions) - sint limit = int e" using assms(2,3) by (auto simp: e_def)
  from cleanLoop_quiet[OF assms(4-7), of live "int e" 0]
  obtain c' where c': "cleanLoop live (int e) 0 sortedRevisions c = (None, c')"
    "objects c' = filter (\<lambda>obj. obj \<notin> set pruned) (objects c)"
    by (auto simp: pruned_def)
  have res: "cleanExpiredRevision ud sortedRevisions c = (Inr (drop e sortedRevisions), c')"
    using assms(1) epos c'(1) by (simp add: cleanExpiredRevision_def eint live_def[symmetric])
  have len: "int (length (drop e sortedRevisions)) = sint limit" using assms(2,3) by (simp add: e_def)
  have un: "set sortedRevisions = set (take e sortedRevisions) \<union> set (drop e sortedRevisions)"
    by (metis append_take_drop_id set_append)
  have dj: "set (take e sortedRevisions) \<inter> set (drop e sortedRevisions) = {}"
    using assms(6) by (intro set_take_disj_set_drop_if_distinct) simp_all
  have mem: "\<forall>r\<in>set sortedRevisions. r \<in> set (objects c') \<longleftrightarrow>
                 r \<in> set (drop e sortedRevisions) \<or> Name r = live"
  proof
    fix r assume r: "r \<in> set sortedRevisions"
    then have "r \<in> set (take e sortedRevisions) \<or> r \<in> set (drop e sortedRevisions)"
      using un by simp
    then show "r \<in> set (objects c') \<longleftrightarrow> r \<in> set (drop e sortedRevisions) \<or> Name r = live"
      using r assms(7) dj unfolding c'(2) pruned_def by auto
  qed
  have others: "\<forall>obj\<in>set (objects c). obj \<notin> set sortedRevisions \<longrightarrow> obj \<in> set (objects c')"
    unfolding c'(2) pruned_def by (auto dest: in_set_takeD)
  define kept where "kept = filter (\<lambda>r. Name r = live) (take e sortedRevisions) @ drop e sortedRevisions"
  have dobjs: "distinct (objects c')" using assms(5) by (simp add: distinct_map c'(2))
  have dk: "distinct kept" using assms(6) dj by (auto simp: kept_def)
  have ks: "set kept \<subseteq> set sortedRevisions" using un by (auto simp: kept_def)
  have sk: "set kept \<subseteq> set (objects c')"
  proof
    fix r assume r: "r \<in> set kept"
    then have "r \<in> set sortedRevisions" using ks by blast
    moreover have "r \<in> set (drop e sortedRevisions) \<or> Name r = live" using r by (auto simp: kept_def)
    ultimately show "r \<in> set (objects c')" using mem by blast
  qed
  have eqset: "obj \<in> set sortedRevisions \<longleftrightarrow> obj \<in> set kept" if "obj \<in> set (objects c')" for obj
  proof
    assume o: "obj \<in> set sortedRevisions"
    then have "obj \<in> set (drop e sortedRevisions) \<or> Name obj = live" using mem that by blast
    moreover have "obj \<in> set (take e sortedRevisions) \<or> obj \<in> set (drop e sortedRevisions)"
      using o un by simp
    ultimately show "obj \<in> set kept" by (auto simp: kept_def)
  next
    assume "obj \<in> set kept" then show "obj \<in> set sortedRevisions" using ks by blast
  qed
  have "filter (\<lambda>obj. obj \<in> set sortedRevisions) (objects c')
        = filter (\<lambda>obj. obj \<in> set kept) (objects c')"
    by (rule filter_cong) (simp_all add: eqset)
  then have "length (filter (\<lambda>obj. obj \<in> set sortedRevisions) (objects c')) = length kept"
    using length_filter_mem[OF dobjs dk sk] by simp
  then have cnt: "int (length (filter (\<lambda>obj. obj \<in> set sortedRevisions) (objects c')))
                = sint limit + int (length (filter (\<lambda>r. Name r = live) (take e sortedRevisions)))"
    using len by (simp add: kept_def)
  show ?thesis
    apply (rule exI[of _ c'])
    using res len mem others cnt unfolding e_def live_def by simp
qed


theorem cleanExpiredRevision_keeps_current_witness:
  "RevisionHistoryLimit (ud_Spec (example_ud 1 ''web-a'' [])) = Some 1
   \<and> 0 \<le> sint (1 :: int32) \<and> sint (1 :: int32) < int (length [rev_a, rev_b, rev_c])
   \<and> faults (quiet_cluster [rev_a, rev_b, rev_c]) = []
   \<and> distinct (map key_of (objects (quiet_cluster [rev_a, rev_b, rev_c])))
   \<and> distinct [rev_a, rev_b, rev_c]
   \<and> set [rev_a, rev_b, rev_c] \<subseteq> set (objects (quiet_cluster [rev_a, rev_b, rev_c]))
   \<and> (\<exists>c'. cleanExpiredRevision (example_ud 1 ''web-a'' []) [rev_a, rev_b, rev_c]
               (quiet_cluster [rev_a, rev_b, rev_c]) = (Inr [rev_c], c')
          \<and> rev_a \<in> set (objects c') \<and> rev_b \<notin> set (objects c') \<and> rev_c \<in> set (objects c')
          \<and> int (length (filter (\<lambda>obj. obj \<in> set [rev_a, rev_b, rev_c]) (objects c'))) = 2)"
proof -
  have h: "RevisionHistoryLimit (ud_Spec (example_ud 1 ''web-a'' [])) = Some 1"
    "0 \<le> sint (1 :: int32)" "sint (1 :: int32) < int (length [rev_a, rev_b, rev_c])"
    "faults (quiet_cluster [rev_a, rev_b, rev_c]) = []"
    "distinct (map key_of (objects (quiet_cluster [rev_a, rev_b, rev_c])))"
    "distinct [rev_a, rev_b, rev_c]"
    "set [rev_a, rev_b, rev_c] \<subseteq> set (objects (quiet_cluster [rev_a, rev_b, rev_c]))"
    by (simp_all add: example_defs key_of_def)
  have names: "Name rev_a = ''web-a''" "Name rev_b \<noteq> ''web-a''" "Name rev_c \<noteq> ''web-a''"
    "CurrentRevision (ud_Status (example_ud 1 ''web-a'' [])) = ''web-a''"
    "rev_a \<noteq> rev_c" "rev_b \<noteq> rev_c"
    by (simp_all add: example_defs)
  from cleanExpiredRevision_keeps_current[OF h]
  show ?thesis using h names by (auto simp: numeral_3_eq_3)
qed

text \<open>
  C1 as stated fails when the current revision is among the over-budget oldest entries:
  with limit 1 and history \<open>a, b, c\<close>, current \<open>a\<close>, the store keeps \<open>a\<close> and \<open>c\<close>
  (two revisions, more than the limit) and the returned history is \<open>[c]\<close>, without
  \<open>a\<close>.
\<close>


theorem cleanExpiredRevision_over_budget_counterexample:
  "fst (cleanExpiredRevision (example_ud 1 ''web-a'' []) [rev_a, rev_b, rev_c]
          (quiet_cluster [rev_a, rev_b, rev_c])) = Inr [rev_c]
   \<and> objects (snd (cleanExpiredRevision (example_ud 1 ''web-a'' []) [rev_a, rev_b, rev_c]
          (quiet_cluster [rev_a, rev_b, rev_c]))) = [rev_a, rev_c]
   \<and> \<not> int (length (objects (snd (cleanExpiredRevision (example_ud 1 ''web-a'' [])
          [rev_a, rev_b, rev_c] (quiet_cluster [rev_a, rev_b, rev_c]))))) \<le> sint (1 :: int32)
   \<and> rev_a \<notin> set [rev_c]"
  by (simp add: example_defs cleanExpiredRevision_def client_Delete_def next_fault_def key_of_def answer_def)

section \<open>Properties of the adapter and of the patch overlay\<close>

lemma bindE_Inr: "bindE m f = Inr y \<longleftrightarrow> (\<exists>x. m = Inr x \<and> f x = Inr y)"
  by (cases m) (simp_all add: bindE_def)

lemma map_of_mergeFields:
  "k \<noteq> ''$patch'' \<Longrightarrow>
   map_of (mergeFields orig patch) k =
     (case map_of patch k of
        None \<Rightarrow> map_of orig k
      | Some v \<Rightarrow> if v = DNull then None
                  else Some (mergeDoc (case map_of orig k of None \<Rightarrow> DNull | Some old \<Rightarrow> old) v))"
proof (induction patch)
  case Nil
  then show ?case by simp
next
  case (Cons kv patch)
  obtain k' v' where kv: "kv = (k', v')" by (cases kv)
  show ?case using Cons
    by (auto simp: kv Let_def update_conv' delete_conv' split: option.splits)
qed

lemma field_delete_directive:
  "k \<noteq> ''$patch'' \<Longrightarrow> field (AList.delete ''$patch'' m) k = field m k"
  by (simp add: field_def delete_conv')

lemma replicas_after_merge:
  assumes "field ps ''replicas'' = DInt v"
  shows "docPath [''replicas''] (mergeDoc old (DMap ps)) = DInt v"
proof -
  have m: "map_of ps ''replicas'' = Some (DInt v)"
    using assms by (auto simp: field_def split: option.splits)
  have d: "docPath [''replicas''] (DMap (AList.delete ''$patch'' ps)) = DInt v"
    using assms by (simp add: field_delete_directive)
  show ?thesis
  proof (cases old)
    case (DMap os)
    have "field (mergeFields os ps) ''replicas'' = DInt v"
      using m by (simp add: field_def map_of_mergeFields)
    then show ?thesis using DMap d by simp
  qed (use d in simp_all)
qed

lemma spec_replicas_after_merge:
  assumes "docPath [''spec'', ''replicas''] patchMap = DInt v"
  shows "docPath [''spec'', ''replicas''] (mergeDoc old patchMap) = DInt v"
proof -
  from assms obtain p where p: "patchMap = DMap p" by (cases patchMap) simp_all
  from assms p obtain ps where ps: "field p ''spec'' = DMap ps"
    by (cases "field p ''spec''") simp_all
  have r: "field ps ''replicas'' = DInt v" using assms p ps by simp
  have m: "map_of p ''spec'' = Some (DMap ps)"
    using ps by (auto simp: field_def split: option.splits)
  have d: "docPath [''spec'', ''replicas''] (DMap (AList.delete ''$patch'' p)) = DInt v"
    using ps r by (simp add: field_delete_directive)
  show ?thesis
  proof (cases old)
    case (DMap os)
    have "field (mergeFields os p) ''spec''
          = mergeDoc (case map_of os ''spec'' of None \<Rightarrow> DNull | Some old \<Rightarrow> old) (DMap ps)"
      using m by (simp add: field_def map_of_mergeFields)
    then have "docPath [''spec'', ''replicas''] (DMap (mergeFields os p)) = DInt v"
      using replicas_after_merge[OF r] by simp
    then show ?thesis using DMap d p by simp
  qed (use d p in simp_all)
qed

lemma bindE_InrE:
  assumes "bindE m f = Inr y"
  obtains x where "m = Inr x" and "f x = Inr y"
  using assms by (cases m) (simp_all add: bindE_def)

lemma as_int32_ptr_DInt:
  "as_int32_ptr (DInt v) = Inr w \<Longrightarrow> w = Some (word_of_int v) \<and> in_int32 v"
  by (cases "in_int32 v") (simp_all add: bindE_def)

lemma as_DeploymentSpec_replicas:
  assumes "as_DeploymentSpec (DMap sm) = Inr spec"
  shows "as_int32_ptr (field sm ''replicas'') = Inr (ds_Replicas spec)"
  using assms unfolding as_DeploymentSpec_def
  by (elim bindE_InrE) auto

lemma as_Deployment_spec:
  assumes "as_Deployment (DMap m) = Inr dep"
  shows "as_DeploymentSpec (field m ''spec'') = Inr (dep_Spec dep)"
  using assms unfolding as_Deployment_def
  by (elim bindE_InrE) auto

lemma as_Deployment_replicas:
  assumes "as_Deployment d = Inr dep" and "docPath [''spec'', ''replicas''] d = DInt v"
  shows "ds_Replicas (dep_Spec dep) = Some (word_of_int v) \<and> in_int32 v"
proof -
  from assms(2) obtain m where m: "d = DMap m" by (cases d) simp_all
  from assms(2) m obtain sm where sm: "field m ''spec'' = DMap sm"
    by (cases "field m ''spec''") simp_all
  have r: "field sm ''replicas'' = DInt v" using assms(2) m sm by simp
  have "as_DeploymentSpec (DMap sm) = Inr (dep_Spec dep)"
    using as_Deployment_spec[OF assms(1)[unfolded m]] sm by simp
  then have "as_int32_ptr (DInt v) = Inr (ds_Replicas (dep_Spec dep))"
    using as_DeploymentSpec_replicas r by metis
  then show ?thesis by (rule as_int32_ptr_DInt)
qed

lemma lookup_update_same: "lookup (AList.update k v m) k = v"
  by (simp add: lookup_def update_conv')

lemma lookup_update_other: "k' \<noteq> k \<Longrightarrow> lookup (AList.update k v m) k' = lookup m k'"
  by (simp add: lookup_def update_conv')

lemma label_keys_differ: "ControllerRevisionHashLabelKey \<noteq> PoolNameLabelKey"
  by (simp add: ControllerRevisionHashLabelKey_def PoolNameLabelKey_def)

lemma CreateNewPatchedObject_replicas:
  assumes "CreateNewPatchedObject unmarshal raw built = Inr applied"
    and "unmarshal raw = Inr patchMap"
    and "docPath [''spec'', ''replicas''] patchMap = DInt v"
  shows "ds_Replicas (dep_Spec applied) = Some (word_of_int v)"
proof -
  from assms(1,2) obtain newPatched where
    np: "as_Deployment (mergeDoc (Deployment_doc built) patchMap) = Inr newPatched"
    and ap: "applied = newPatched\<lparr>Annotations :=
               AList.update AnnotationPatchKey raw (Annotations newPatched)\<rparr>"
    by (auto simp: CreateNewPatchedObject_def split: sum.splits)
  have "docPath [''spec'', ''replicas''] (mergeDoc (Deployment_doc built) patchMap) = DInt v"
    using assms(3) by (rule spec_replicas_after_merge)
  from as_Deployment_replicas[OF np this] show ?thesis by (simp add: ap)
qed

lemma ApplyPoolTemplate_patched:
  assumes "find (\<lambda>pool. pool_Name pool = poolName) (Pools (Topology (ud_Spec ud))) = Some poolConfig"
    and "Patch poolConfig = Some raw"
    and "DeploymentAdapter_ApplyPoolTemplate attach unmarshal ud poolName revision replicas obj
           = (None, applied)"
  shows "\<exists>built. CreateNewPatchedObject unmarshal raw built = Inr applied
          \<and> ds_Replicas (dep_Spec built) = Some replicas
          \<and> Namespace built = Namespace ud
          \<and> GenerateName built = getPoolPrefix (Name ud) poolName
          \<and> lookup (Labels built) PoolNameLabelKey = poolName
          \<and> lookup (Labels built) ControllerRevisionHashLabelKey = revision
          \<and> ControllerRef built = Some (Name ud)"
proof -
  from assms(3) obtain template where t: "DeploymentTemplate (WorkloadTemplate (ud_Spec ud)) = Some template"
    by (cases "DeploymentTemplate (WorkloadTemplate (ud_Spec ud))")
       (simp_all add: DeploymentAdapter_ApplyPoolTemplate_def assms(1))
  from assms(3) obtain selector where s: "Selector (ud_Spec ud) = Some selector"
    by (cases "Selector (ud_Spec ud)")
       (simp_all add: DeploymentAdapter_ApplyPoolTemplate_def assms(1) t)
  from assms(3) obtain ml where ml: "MatchLabels selector = Some ml"
    by (cases "MatchLabels selector")
       (simp_all add: DeploymentAdapter_ApplyPoolTemplate_def assms(1) t s Let_def)
  define set1 where "set1 = obj\<lparr>Namespace := Namespace ud,
                      Labels := AList.update PoolNameLabelKey poolName
                                  (AList.update ControllerRevisionHashLabelKey revision
                                     (assignAll ml (assignAll (dt_Labels template) (Labels obj)))),
                      Annotations := assignAll (dt_Annotations template) (Annotations obj),
                      GenerateName := getPoolPrefix (Name ud) poolName\<rparr>"
  from assms(3) obtain set2 where s2: "SetControllerReference ud set1 = Inr set2"
    by (cases "SetControllerReference ud set1")
       (simp_all add: DeploymentAdapter_ApplyPoolTemplate_def assms(1) t s ml Let_def set1_def)
  define built where "built = set2\<lparr>dep_Spec :=
                    \<lparr>ds_Replicas = Some replicas,
                     ds_Selector = Some \<lparr>MatchLabels = Some (AList.update PoolNameLabelKey poolName ml)\<rparr>,
                     ds_Template =
                       (ds_Template (dt_Spec template))\<lparr>tmpl_Labels :=
                                     AList.update ControllerRevisionHashLabelKey revision
                                       (AList.update PoolNameLabelKey poolName
                                          (tmpl_Labels (ds_Template (dt_Spec template)))),
                                   tmpl_Spec := attach (tmpl_Spec (ds_Template (dt_Spec template))) poolConfig\<rparr>,
                     ds_Strategy = ds_Strategy (dt_Spec template),
                     ds_MinReadySeconds = ds_MinReadySeconds (dt_Spec template),
                     ds_RevisionHistoryLimit = RevisionHistoryLimit (ud_Spec ud),
                     ds_Paused = ds_Paused (dt_Spec template),
                     ds_ProgressDeadlineSeconds = ds_ProgressDeadlineSeconds (dt_Spec template)\<rparr>\<rparr>"
  have res: "DeploymentAdapter_ApplyPoolTemplate attach unmarshal ud poolName revision replicas obj
        = (case CreateNewPatchedObject unmarshal raw built of
             Inl err \<Rightarrow> (Some err, built)
           | Inr patched \<Rightarrow> (None, patched))"
    unfolding built_def
    by (simp add: DeploymentAdapter_ApplyPoolTemplate_def assms(1,2) t s ml Let_def
          set1_def[symmetric] s2 PoolHasPatch_def)
  then have c: "CreateNewPatchedObject unmarshal raw built = Inr applied"
    using assms(3) by (cases "CreateNewPatchedObject unmarshal raw built") simp_all
  have meta: "Namespace set2 = Namespace set1" "GenerateName set2 = GenerateName set1"
    "Labels set2 = Labels set1" "ControllerRef set2 = Some (Name ud)"
    using s2 by (auto simp: SetControllerReference_def split: option.splits if_splits)
  have "ds_Replicas (dep_Spec built) = Some replicas
          \<and> Namespace built = Namespace ud
          \<and> GenerateName built = getPoolPrefix (Name ud) poolName
          \<and> lookup (Labels built) PoolNameLabelKey = poolName
          \<and> lookup (Labels built) ControllerRevisionHashLabelKey = revision
          \<and> ControllerRef built = Some (Name ud)"
    using meta label_keys_differ
    by (simp add: built_def set1_def lookup_update_same lookup_update_other)
  then show ?thesis using c by blast
qed

lemma ApplyPoolTemplate_built:
  assumes "find (\<lambda>pool. pool_Name pool = poolName) (Pools (Topology (ud_Spec ud))) = Some poolConfig"
    and "DeploymentTemplate (WorkloadTemplate (ud_Spec ud)) = Some template"
    and "Selector (ud_Spec ud) = Some selector" and "MatchLabels selector = Some ml"
    and "ControllerRef obj = None \<or> ControllerRef obj = Some (Name ud)"
  shows "\<exists>built. ds_Replicas (dep_Spec built) = Some replicas
          \<and> Namespace built = Namespace ud
          \<and> GenerateName built = getPoolPrefix (Name ud) poolName
          \<and> lookup (Labels built) PoolNameLabelKey = poolName
          \<and> lookup (Labels built) ControllerRevisionHashLabelKey = revision
          \<and> ControllerRef built = Some (Name ud)
          \<and> ds_Paused (dep_Spec built) = ds_Paused (dt_Spec template)
          \<and> DeploymentAdapter_ApplyPoolTemplate attach unmarshal ud poolName revision replicas obj
              = (case Patch poolConfig of
                   None \<Rightarrow> (None, built)
                 | Some raw \<Rightarrow>
                     (case unmarshal raw of
                        Inl err \<Rightarrow> (Some err, built)
                      | Inr patchMap \<Rightarrow>
                          (case as_Deployment (mergeDoc (Deployment_doc built) patchMap) of
                             Inl err \<Rightarrow> (Some err, built)
                           | Inr newPatched \<Rightarrow>
                               (None, newPatched\<lparr>Annotations :=
                                        AList.update AnnotationPatchKey raw
                                          (Annotations newPatched)\<rparr>))))"
proof -
  define set1 where "set1 = obj\<lparr>Namespace := Namespace ud,
                      Labels := AList.update PoolNameLabelKey poolName
                                  (AList.update ControllerRevisionHashLabelKey revision
                                     (assignAll ml (assignAll (dt_Labels template) (Labels obj)))),
                      Annotations := assignAll (dt_Annotations template) (Annotations obj),
                      GenerateName := getPoolPrefix (Name ud) poolName\<rparr>"
  define set2 where "set2 = set1\<lparr>ControllerRef := Some (Name ud)\<rparr>"
  have s2: "SetControllerReference ud set1 = Inr set2"
    using assms(5) by (auto simp: SetControllerReference_def set1_def set2_def)
  define built where "built = set2\<lparr>dep_Spec :=
                    \<lparr>ds_Replicas = Some replicas,
                     ds_Selector = Some \<lparr>MatchLabels = Some (AList.update PoolNameLabelKey poolName ml)\<rparr>,
                     ds_Template =
                       (ds_Template (dt_Spec template))\<lparr>tmpl_Labels :=
                                     AList.update ControllerRevisionHashLabelKey revision
                                       (AList.update PoolNameLabelKey poolName
                                          (tmpl_Labels (ds_Template (dt_Spec template)))),
                                   tmpl_Spec := attach (tmpl_Spec (ds_Template (dt_Spec template))) poolConfig\<rparr>,
                     ds_Strategy = ds_Strategy (dt_Spec template),
                     ds_MinReadySeconds = ds_MinReadySeconds (dt_Spec template),
                     ds_RevisionHistoryLimit = RevisionHistoryLimit (ud_Spec ud),
                     ds_Paused = ds_Paused (dt_Spec template),
                     ds_ProgressDeadlineSeconds = ds_ProgressDeadlineSeconds (dt_Spec template)\<rparr>\<rparr>"
  have res: "DeploymentAdapter_ApplyPoolTemplate attach unmarshal ud poolName revision replicas obj
        = (case Patch poolConfig of
             None \<Rightarrow> (None, built)
           | Some raw \<Rightarrow>
               (case CreateNewPatchedObject unmarshal raw built of
                  Inl err \<Rightarrow> (Some err, built)
                | Inr patched \<Rightarrow> (None, patched)))"
    unfolding built_def
    by (cases "Patch poolConfig")
       (simp_all add: DeploymentAdapter_ApplyPoolTemplate_def assms(1-4) Let_def
          set1_def[symmetric] s2 PoolHasPatch_def)
  have res': "DeploymentAdapter_ApplyPoolTemplate attach unmarshal ud poolName revision replicas obj
              = (case Patch poolConfig of
                   None \<Rightarrow> (None, built)
                 | Some raw \<Rightarrow>
                     (case unmarshal raw of
                        Inl err \<Rightarrow> (Some err, built)
                      | Inr patchMap \<Rightarrow>
                          (case as_Deployment (mergeDoc (Deployment_doc built) patchMap) of
                             Inl err \<Rightarrow> (Some err, built)
                           | Inr newPatched \<Rightarrow>
                               (None, newPatched\<lparr>Annotations :=
                                        AList.update AnnotationPatchKey raw
                                          (Annotations newPatched)\<rparr>))))"
    unfolding res by (auto simp: CreateNewPatchedObject_def split: option.splits sum.splits)
  have "ds_Replicas (dep_Spec built) = Some replicas
          \<and> Namespace built = Namespace ud
          \<and> GenerateName built = getPoolPrefix (Name ud) poolName
          \<and> lookup (Labels built) PoolNameLabelKey = poolName
          \<and> lookup (Labels built) ControllerRevisionHashLabelKey = revision
          \<and> ControllerRef built = Some (Name ud)
          \<and> ds_Paused (dep_Spec built) = ds_Paused (dt_Spec template)"
    using label_keys_differ
    by (simp add: built_def set2_def set1_def lookup_update_same lookup_update_other)
  then show ?thesis using res' by blast
qed

text \<open>
  C8. For every pool that carries a patch, with the template and the selector in place
  and an object the resource may own, \<open>ApplyPoolTemplate\<close> builds an object \<open>built\<close>
  with the fields it sets (the namespace, the generated-name prefix, the pool-name and
  revision-hash labels, the controller reference, the replica count of the argument, the
  template's pause flag) and then overlays the patch: when the patch does not parse or
  the overlay is no Deployment it returns that error, otherwise it returns the overlay
  of the patch document on \<open>built\<close>, with the raw patch recorded in the annotation,
  whatever the patch sets. When the patch document has an integer at \<open>spec.replicas\<close>,
  the applied object has that replica count, whatever the argument was. In the witness
  the pool with 3 replicas and the patch that sets 5 gets 5; the pool whose patch pauses
  the rollout is paused and keeps the 3 of the argument; a pool without patch gets 3 and
  is not paused.
\<close>

theorem ApplyPoolTemplate_patch_precedence:
  assumes "find (\<lambda>pool. pool_Name pool = poolName) (Pools (Topology (ud_Spec ud))) = Some poolConfig"
    and "Patch poolConfig = Some raw"
    and "DeploymentTemplate (WorkloadTemplate (ud_Spec ud)) = Some template"
    and "Selector (ud_Spec ud) = Some selector" and "MatchLabels selector = Some ml"
    and "ControllerRef obj = None \<or> ControllerRef obj = Some (Name ud)"
  shows "\<exists>built. ds_Replicas (dep_Spec built) = Some replicas
          \<and> Namespace built = Namespace ud
          \<and> GenerateName built = getPoolPrefix (Name ud) poolName
          \<and> lookup (Labels built) PoolNameLabelKey = poolName
          \<and> lookup (Labels built) ControllerRevisionHashLabelKey = revision
          \<and> ControllerRef built = Some (Name ud)
          \<and> ds_Paused (dep_Spec built) = ds_Paused (dt_Spec template)
          \<and> DeploymentAdapter_ApplyPoolTemplate attach unmarshal ud poolName revision replicas obj
              = (case unmarshal raw of
                   Inl err \<Rightarrow> (Some err, built)
                 | Inr patchMap \<Rightarrow>
                     (case as_Deployment (mergeDoc (Deployment_doc built) patchMap) of
                        Inl err \<Rightarrow> (Some err, built)
                      | Inr newPatched \<Rightarrow>
                          (None, newPatched\<lparr>Annotations :=
                                   AList.update AnnotationPatchKey raw (Annotations newPatched)\<rparr>)))
          \<and> (\<forall>patchMap v applied.
                unmarshal raw = Inr patchMap
                \<and> docPath [''spec'', ''replicas''] patchMap = DInt v
                \<and> DeploymentAdapter_ApplyPoolTemplate attach unmarshal ud poolName revision
                     replicas obj = (None, applied)
                \<longrightarrow> ds_Replicas (dep_Spec applied) = Some (word_of_int v))"
proof -
  from ApplyPoolTemplate_built[OF assms(1,3,4,5,6), of replicas revision attach unmarshal]
  obtain built where b:
    "ds_Replicas (dep_Spec built) = Some replicas
          \<and> Namespace built = Namespace ud
          \<and> GenerateName built = getPoolPrefix (Name ud) poolName
          \<and> lookup (Labels built) PoolNameLabelKey = poolName
          \<and> lookup (Labels built) ControllerRevisionHashLabelKey = revision
          \<and> ControllerRef built = Some (Name ud)
          \<and> ds_Paused (dep_Spec built) = ds_Paused (dt_Spec template)"
    and res: "DeploymentAdapter_ApplyPoolTemplate attach unmarshal ud poolName revision replicas obj
              = (case unmarshal raw of
                   Inl err \<Rightarrow> (Some err, built)
                 | Inr patchMap \<Rightarrow>
                     (case as_Deployment (mergeDoc (Deployment_doc built) patchMap) of
                        Inl err \<Rightarrow> (Some err, built)
                      | Inr newPatched \<Rightarrow>
                          (None, newPatched\<lparr>Annotations :=
                                   AList.update AnnotationPatchKey raw (Annotations newPatched)\<rparr>)))"
    unfolding assms(2) option.case by (elim exE conjE) (rule that; (intro conjI)?; assumption)
  have prec: "ds_Replicas (dep_Spec applied) = Some (word_of_int v)"
    if u: "unmarshal raw = Inr patchMap" and dp: "docPath [''spec'', ''replicas''] patchMap = DInt v"
      and ok: "DeploymentAdapter_ApplyPoolTemplate attach unmarshal ud poolName revision
                     replicas obj = (None, applied)"
    for patchMap v applied
  proof -
    from ApplyPoolTemplate_patched[OF assms(1,2) ok]
    obtain built' where "CreateNewPatchedObject unmarshal raw built' = Inr applied" by blast
    from CreateNewPatchedObject_replicas[OF this u dp] show ?thesis .
  qed
  show ?thesis
    apply (rule exI[of _ built])
    using b res prec by blast
qed

theorem ApplyPoolTemplate_patch_precedence_witness:
  "find (\<lambda>pool. pool_Name pool = ''A'') (Pools (Topology (ud_Spec (example_ud 10 ''web-c'' pools_patched))))
     = Some (topology_pool ''A'' 3 (Some replicas_5_patch))
   \<and> pool_Replicas (topology_pool ''A'' 3 (Some replicas_5_patch)) = Some 3
   \<and> Patch (topology_pool ''A'' 3 (Some replicas_5_patch)) = Some replicas_5_patch
   \<and> example_unmarshal replicas_5_patch = Inr (DMap [(''spec'', DMap [(''replicas'', DInt 5)])])
   \<and> docPath [''spec'', ''replicas''] (DMap [(''spec'', DMap [(''replicas'', DInt 5)])]) = DInt 5
   \<and> fst (DeploymentAdapter_ApplyPoolTemplate no_affinity example_unmarshal
            (example_ud 10 ''web-c'' pools_patched) ''A'' ''web-c'' 3 emptyDeployment) = None
   \<and> ds_Replicas (dep_Spec (snd (DeploymentAdapter_ApplyPoolTemplate no_affinity example_unmarshal
            (example_ud 10 ''web-c'' pools_patched) ''A'' ''web-c'' 3 emptyDeployment))) = Some 5
   \<and> ds_Replicas (dep_Spec (snd (DeploymentAdapter_ApplyPoolTemplate no_affinity example_unmarshal
            (example_ud 10 ''web-c'' pools_patched) ''B'' ''web-c'' 3 emptyDeployment))) = Some 3
   \<and> ds_Paused (dep_Spec (snd (DeploymentAdapter_ApplyPoolTemplate no_affinity example_unmarshal
            (example_ud 10 ''web-c'' pools_patched) ''B'' ''web-c'' 3 emptyDeployment))) = False
   \<and> Patch (topology_pool ''C'' 3 (Some paused_patch)) = Some paused_patch
   \<and> example_unmarshal paused_patch = Inr (DMap [(''spec'', DMap [(''paused'', DBool True)])])
   \<and> fst (DeploymentAdapter_ApplyPoolTemplate no_affinity example_unmarshal
            (example_ud 10 ''web-c'' pools_patched) ''C'' ''web-c'' 3 emptyDeployment) = None
   \<and> ds_Paused (dep_Spec (snd (DeploymentAdapter_ApplyPoolTemplate no_affinity example_unmarshal
            (example_ud 10 ''web-c'' pools_patched) ''C'' ''web-c'' 3 emptyDeployment))) = True
   \<and> ds_Replicas (dep_Spec (snd (DeploymentAdapter_ApplyPoolTemplate no_affinity example_unmarshal
            (example_ud 10 ''web-c'' pools_patched) ''C'' ''web-c'' 3 emptyDeployment))) = Some 3
   \<and> lookup (Annotations (snd (DeploymentAdapter_ApplyPoolTemplate no_affinity example_unmarshal
            (example_ud 10 ''web-c'' pools_patched) ''C'' ''web-c'' 3 emptyDeployment)))
        AnnotationPatchKey = paused_patch"
proof -
  let ?ud = "example_ud 10 ''web-c'' pools_patched"
  let ?r = "DeploymentAdapter_ApplyPoolTemplate no_affinity example_unmarshal
            ?ud ''A'' ''web-c'' 3 emptyDeployment"
  have h1: "find (\<lambda>pool. pool_Name pool = ''A'') (Pools (Topology (ud_Spec ?ud)))
     = Some (topology_pool ''A'' 3 (Some replicas_5_patch))"
    by (simp add: example_defs pools_patched_def topology_pool_def)
  have h2: "Patch (topology_pool ''A'' 3 (Some replicas_5_patch)) = Some replicas_5_patch"
    "pool_Replicas (topology_pool ''A'' 3 (Some replicas_5_patch)) = Some 3"
    "Patch (topology_pool ''C'' 3 (Some paused_patch)) = Some paused_patch"
    by (simp_all add: topology_pool_def)
  have h3: "example_unmarshal replicas_5_patch = Inr (DMap [(''spec'', DMap [(''replicas'', DInt 5)])])"
    "example_unmarshal paused_patch = Inr (DMap [(''spec'', DMap [(''paused'', DBool True)])])"
    by (simp_all add: example_unmarshal_def replicas_5_patch_def paused_patch_def)
  have h4: "docPath [''spec'', ''replicas''] (DMap [(''spec'', DMap [(''replicas'', DInt 5)])]) = DInt 5"
    by (simp add: field_def)
  have h5: "DeploymentTemplate (WorkloadTemplate (ud_Spec ?ud)) = Some example_template"
    "Selector (ud_Spec ?ud) = Some \<lparr>MatchLabels = Some [(''app'', ''web'')]\<rparr>"
    "MatchLabels \<lparr>MatchLabels = Some [(''app'', ''web'')]\<rparr> = Some [(''app'', ''web'')]"
    "ControllerRef emptyDeployment = None \<or> ControllerRef emptyDeployment = Some (Name ?ud)"
    by (simp_all add: example_ud_def emptyDeployment_def)
  have ev: "fst ?r = None"
    "ds_Replicas (dep_Spec (snd (DeploymentAdapter_ApplyPoolTemplate no_affinity example_unmarshal
            ?ud ''B'' ''web-c'' 3 emptyDeployment))) = Some 3"
    "ds_Paused (dep_Spec (snd (DeploymentAdapter_ApplyPoolTemplate no_affinity example_unmarshal
            ?ud ''B'' ''web-c'' 3 emptyDeployment))) = False"
    "fst (DeploymentAdapter_ApplyPoolTemplate no_affinity example_unmarshal
            ?ud ''C'' ''web-c'' 3 emptyDeployment) = None"
    "ds_Paused (dep_Spec (snd (DeploymentAdapter_ApplyPoolTemplate no_affinity example_unmarshal
            ?ud ''C'' ''web-c'' 3 emptyDeployment))) = True"
    "ds_Replicas (dep_Spec (snd (DeploymentAdapter_ApplyPoolTemplate no_affinity example_unmarshal
            ?ud ''C'' ''web-c'' 3 emptyDeployment))) = Some 3"
    "lookup (Annotations (snd (DeploymentAdapter_ApplyPoolTemplate no_affinity example_unmarshal
            ?ud ''C'' ''web-c'' 3 emptyDeployment))) AnnotationPatchKey = paused_patch"
    by code_simp+
  have h6: "?r = (None, snd ?r)" using ev(1) by (simp add: prod_eq_iff)
  from ApplyPoolTemplate_patch_precedence[OF h1 h2(1) h5, where replicas = 3
         and revision = "''web-c''" and attach = no_affinity and unmarshal = example_unmarshal]
  have prec: "\<forall>patchMap v applied.
                example_unmarshal replicas_5_patch = Inr patchMap
                \<and> docPath [''spec'', ''replicas''] patchMap = DInt v
                \<and> ?r = (None, applied)
                \<longrightarrow> ds_Replicas (dep_Spec applied) = Some (word_of_int v)"
    by (elim exE conjE) assumption
  from prec h3(1) h4 h6 have "ds_Replicas (dep_Spec (snd ?r)) = Some (word_of_int 5)" by blast
  then show ?thesis using h1 h2 h3 h4 ev by simp
qed
section \<open>Properties of \<open>PoolControl.UpdatePool\<close>\<close>

lemma next_fault_fault_at: "next_fault c = fault_at (faults c) 0"
  by (cases "faults c") (simp_all add: next_fault_def fault_at_def)

lemma fault_at_tl: "fault_at (tl fs) i = fault_at fs (Suc i)"
  by (cases fs) (simp_all add: fault_at_def)

lemma client_Get_found:
  "next_fault c = None \<Longrightarrow> find (\<lambda>obj. key_of obj = key) (objects c) = Some live
     \<Longrightarrow> client_Get c key = (Inr live, answer c (GetCall key) None (objects c))"
  by (simp add: client_Get_def)









section \<open>Properties of the pool diff and of provisioning\<close>

lemma set_sets_List [simp]: "finite s \<Longrightarrow> set (sets_List s) = s"
  by (simp add: sets_List_def)


lemma deleteErrs_total:
  "set names \<subseteq> gotPools nameToPool \<Longrightarrow>
   \<exists>errs. deleteErrs r nameToPool workloadType names = Inr errs"
proof (induction names)
  case Nil
  then show ?case by simp
next
  case (Cons name names)
  then obtain errs where "deleteErrs r nameToPool workloadType names = Inr errs" by auto
  moreover from Cons.prems have "name \<in> fst ` set nameToPool" by (simp add: gotPools_def)
  then obtain pool where "map_of nameToPool name = Some pool"
    by (metis domD dom_map_of_conv_image_fst)
  ultimately show ?case by simp
qed

lemma deletes_subset: "set (deletes ud nameToPool) \<subseteq> gotPools nameToPool"
  by (auto simp: deletes_def gotPools_def)

lemma ex_TemplateType:
  "(\<exists>t. P t) \<longleftrightarrow> P StatefulSetTemplateType \<or> P DeploymentTemplateType"
proof
  assume "\<exists>t. P t"
  then obtain t where "P t" ..
  then show "P StatefulSetTemplateType \<or> P DeploymentTemplateType" by (cases t) simp_all
next
  assume "P StatefulSetTemplateType \<or> P DeploymentTemplateType"
  then show "\<exists>t. P t" by blast
qed

lemma fst_cleanOtherPools:
  "fst (cleanOtherPools r ud workloadType t)
      \<longleftrightarrow> t \<noteq> workloadType \<and> (\<exists>pools. GetAllPools (poolControls r t) ud = Inr pools \<and> pools \<noteq> [])"
  by (cases "GetAllPools (poolControls r t) ud") (simp_all add: cleanOtherPools_def)

lemma cleaned_iff:
  "list_ex fst (map (cleanOtherPools r ud workloadType) [StatefulSetTemplateType, DeploymentTemplateType])
   \<longleftrightarrow> (\<exists>t. t \<noteq> workloadType \<and> (\<exists>pools. GetAllPools (poolControls r t) ud = Inr pools \<and> pools \<noteq> []))"
  by (subst ex_TemplateType) (simp add: fst_cleanOtherPools)

lemma managePoolProvision_result:
  "\<exists>errs2. deleteErrs r nameToPool workloadType (deletes ud nameToPool) = Inr errs2
     \<and> managePoolProvision r sched slowStartInitialBatchSize ud nameToPool nextPatches
         expectedRevision workloadType
       = Inr (expectedPools ud \<inter> gotPools nameToPool,
              creates ud nameToPool \<noteq> [] \<or> deletes ud nameToPool \<noteq> []
                \<or> (\<exists>t. t \<noteq> workloadType
                      \<and> (\<exists>pools. GetAllPools (poolControls r t) ud = Inr pools \<and> pools \<noteq> [])),
              NewAggregate
                (createErrs r sched slowStartInitialBatchSize ud nameToPool nextPatches
                   (Name expectedRevision) workloadType
                 @ errs2
                 @ concat (map snd (map (cleanOtherPools r ud workloadType)
                                      [StatefulSetTemplateType, DeploymentTemplateType]))))"
proof -
  from deleteErrs_total[OF deletes_subset]
  obtain errs2 where e2: "deleteErrs r nameToPool workloadType (deletes ud nameToPool) = Inr errs2"
    by blast
  have e2': "(if length (deletes ud nameToPool) > 0
               then deleteErrs r nameToPool workloadType (deletes ud nameToPool)
               else Inr []) = Inr errs2"
    using e2 by (cases "deletes ud nameToPool") auto
  have "managePoolProvision r sched slowStartInitialBatchSize ud nameToPool nextPatches
         expectedRevision workloadType
       = Inr (expectedPools ud \<inter> gotPools nameToPool,
              creates ud nameToPool \<noteq> [] \<or> deletes ud nameToPool \<noteq> []
                \<or> (\<exists>t. t \<noteq> workloadType
                      \<and> (\<exists>pools. GetAllPools (poolControls r t) ud = Inr pools \<and> pools \<noteq> [])),
              NewAggregate
                (createErrs r sched slowStartInitialBatchSize ud nameToPool nextPatches
                   (Name expectedRevision) workloadType
                 @ errs2
                 @ concat (map snd (map (cleanOtherPools r ud workloadType)
                                      [StatefulSetTemplateType, DeploymentTemplateType]))))"
    unfolding managePoolProvision_def Let_def e2' cleaned_iff by simp
  then show ?thesis using e2 by blast
qed







text \<open>
  C10. The flag returned by \<open>managePoolProvision\<close> is true exactly when there is a
  pool to create, or a pool to delete, or a pool of another kind was listed by the
  cleanup; whatever the create and delete calls answer. In the witness every create
  and delete fails and the flag is true; with nothing to do it is false.
\<close>

theorem provisioned_flag_reflects_attempts:
  "\<exists>err. managePoolProvision r sched slowStartInitialBatchSize ud nameToPool nextPatches
            expectedRevision workloadType
         = Inr (expectedPools ud \<inter> gotPools nameToPool,
                creates ud nameToPool \<noteq> [] \<or> deletes ud nameToPool \<noteq> []
                  \<or> (\<exists>t. t \<noteq> workloadType
                        \<and> (\<exists>pools. GetAllPools (poolControls r t) ud = Inr pools \<and> pools \<noteq> [])),
                err)"
  using managePoolProvision_result[of r nameToPool workloadType ud sched slowStartInitialBatchSize
          nextPatches expectedRevision]
  by blast


theorem provisioned_flag_reflects_attempts_witness:
  "managePoolProvision failing_reconciler first_sent 1 (example_ud 10 ''web-c'' pools_ABC)
       live_BCD patches_ABC rev_c DeploymentTemplateType
     = Inr ({''B'', ''C''}, True,
            Some (Aggregate
              [FailCreatePool DeploymentTemplateType ''A'' (ServerError ''down''),
               FailDeletePool DeploymentTemplateType ''default'' ''D'' ''D'' (ServerError ''down''),
               FailDeleteOtherPool ''S'' StatefulSetTemplateType ''default'' ''web''
                 (ServerError ''down'')]))
   \<and> managePoolProvision timeout_reconciler first_sent 1 (example_ud 10 ''web-c'' (tl pools_ABC))
       (butlast live_BCD) patches_ABC rev_c DeploymentTemplateType
     = Inr ({''B'', ''C''}, False, None)"
proof -
  have sets: "expectedPools (example_ud 10 ''web-c'' pools_ABC) \<inter> gotPools live_BCD = {''B'', ''C''}"
    "expectedPools (example_ud 10 ''web-c'' (tl pools_ABC)) \<inter> gotPools (butlast live_BCD) = {''B'', ''C''}"
    by (auto simp: expectedPools_def gotPools_def example_defs pools_ABC_def topology_pool_def live_BCD_def)
  have ev: "snd (snd (projr (managePoolProvision failing_reconciler first_sent 1
                (example_ud 10 ''web-c'' pools_ABC) live_BCD patches_ABC rev_c DeploymentTemplateType)))
      = Some (Aggregate
              [FailCreatePool DeploymentTemplateType ''A'' (ServerError ''down''),
               FailDeletePool DeploymentTemplateType ''default'' ''D'' ''D'' (ServerError ''down''),
               FailDeleteOtherPool ''S'' StatefulSetTemplateType ''default'' ''web''
                 (ServerError ''down'')])"
    "snd (snd (projr (managePoolProvision timeout_reconciler first_sent 1
                (example_ud 10 ''web-c'' (tl pools_ABC)) (butlast live_BCD) patches_ABC rev_c
                DeploymentTemplateType))) = None"
    "creates (example_ud 10 ''web-c'' pools_ABC) live_BCD = [''A'']"
    "creates (example_ud 10 ''web-c'' (tl pools_ABC)) (butlast live_BCD) = []"
    "deletes (example_ud 10 ''web-c'' (tl pools_ABC)) (butlast live_BCD) = []"
    by code_simp+
  have none: "\<not> (\<exists>t. t \<noteq> DeploymentTemplateType
                \<and> (\<exists>pools. GetAllPools (poolControls timeout_reconciler t)
                              (example_ud 10 ''web-c'' (tl pools_ABC)) = Inr pools \<and> pools \<noteq> []))"
    by (simp add: timeout_reconciler_def control_of_def)
  from provisioned_flag_reflects_attempts[of failing_reconciler first_sent 1
         "example_ud 10 ''web-c'' pools_ABC" live_BCD patches_ABC rev_c DeploymentTemplateType]
  obtain e1 where r1: "managePoolProvision failing_reconciler first_sent 1
       (example_ud 10 ''web-c'' pools_ABC) live_BCD patches_ABC rev_c DeploymentTemplateType
     = Inr ({''B'', ''C''}, True, e1)"
    unfolding sets ev by auto
  from provisioned_flag_reflects_attempts[of timeout_reconciler first_sent 1
         "example_ud 10 ''web-c'' (tl pools_ABC)" "butlast live_BCD" patches_ABC rev_c
         DeploymentTemplateType]
  obtain e2 where r2: "managePoolProvision timeout_reconciler first_sent 1
       (example_ud 10 ''web-c'' (tl pools_ABC)) (butlast live_BCD) patches_ABC rev_c
       DeploymentTemplateType
     = Inr ({''B'', ''C''}, False, e2)"
    unfolding sets ev using none by auto
  show ?thesis using ev(1,2) unfolding r1 r2 by simp
qed




section \<open>Name collisions in \<open>createControllerRevision\<close>\<close>

lemma sint_succ_int32:
  fixes w :: int32
  assumes "sint w \<noteq> 2 ^ 31 - 1"
  shows "sint (w + 1) = sint w + 1"
proof -
  have lo: "- (2 ^ 31) \<le> sint w" using sint_ge[of w] by simp
  have hi: "sint w < 2 ^ 31" using sint_lt[of w] by simp
  have "sint (w + 1) = signed_take_bit 31 (sint w + sint (1 :: int32))"
    by (simp add: sint_word_ariths)
  also have "sint (1 :: int32) = 1" by simp
  also have "signed_take_bit 31 (sint w + 1) = sint w + 1"
    using lo hi assms by (intro signed_take_bit_int_eq_self) simp_all
  finally show ?thesis .
qed

lemma client_Create_exists:
  "next_fault c = None \<Longrightarrow> key_of obj \<in> set (map key_of (objects c))
     \<Longrightarrow> client_Create c obj
           = (Some AlreadyExists, answer c (CreateCall obj) (Some AlreadyExists) (objects c))"
  by (simp add: client_Create_def)

lemma client_Create_calls:
  "\<exists>result. calls (snd (client_Create c obj)) = calls c @ [(CreateCall obj, result)]"
  by (auto simp: client_Create_def split: option.splits)

lemma client_Get_calls:
  "\<exists>result. calls (snd (client_Get c key)) = calls c @ [(GetCall key, result)]"
  by (auto simp: client_Get_def split: option.splits)

lemma createLoop_first_call:
  assumes "createLoop hashf parent revision clone collisionCount c = Some y"
  shows "\<exists>result rest. calls (snd (snd y))
      = calls c @ (CreateCall (clone\<lparr>Name := ControllerRevisionName (Name parent)
                                          (hashf revision collisionCount)\<rparr>), result) # rest"
  using assms
proof (induction hashf parent revision clone collisionCount c y rule: createLoop.raw_induct[rotated, consumes 1, case_names 1])
  case (1 loop hashf parent revision clone collisionCount c y)
  let ?clone = "clone\<lparr>Name := ControllerRevisionName (Name parent) (hashf revision collisionCount)\<rparr>"
  obtain r1 c1 where cr: "client_Create c ?clone = (r1, c1)" by (cases "client_Create c ?clone")
  from client_Create_calls[of c ?clone] cr
  obtain a1 where c1: "calls c1 = calls c @ [(CreateCall ?clone, a1)]" by auto
  show ?case
  proof (cases r1)
    case None
    then show ?thesis using "1.hyps" cr c1 by (auto simp: Let_def)
  next
    case (Some err)
    show ?thesis
    proof (cases "IsAlreadyExists err")
      case False
      then show ?thesis using "1.hyps" cr c1 Some by (auto simp: Let_def)
    next
      case True
      obtain r2 c2 where g: "client_Get c1 (Namespace parent, Name ?clone) = (r2, c2)"
        by (cases "client_Get c1 (Namespace parent, Name ?clone)")
      from client_Get_calls[of c1 "(Namespace parent, Name ?clone)"] g
      obtain a2 where c2: "calls c2 = calls c1 @ [(GetCall (Namespace parent, Name ?clone), a2)]"
        by auto
      show ?thesis
      proof (cases r2)
        case (Inl e)
        then show ?thesis using "1.hyps" cr c1 Some True g c2 by (auto simp: Let_def)
      next
        case (Inr existing)
        show ?thesis
        proof (cases "Data existing = Data ?clone")
          case True
          then show ?thesis using "1.hyps" cr c1 Some \<open>IsAlreadyExists err\<close> g c2 Inr
            by (auto simp: Let_def)
        next
          case False
          then have "loop hashf parent revision ?clone (collisionCount + 1) c2 = Some y"
            using "1.hyps" cr Some \<open>IsAlreadyExists err\<close> g Inr by (auto simp: Let_def)
          from "1.IH"[OF this] obtain result rest where
            "calls (snd (snd y)) = calls c2 @ (CreateCall (?clone\<lparr>Name := ControllerRevisionName (Name parent)
                                          (hashf revision (collisionCount + 1))\<rparr>), result) # rest"
            by blast
          then show ?thesis using c1 c2 by simp
        qed
      qed
    qed
  qed
qed

lemma client_Create_fresh:
  "next_fault c = None \<Longrightarrow> key_of obj \<notin> set (map key_of (objects c))
     \<Longrightarrow> client_Create c obj = (None, answer c (CreateCall obj) None (objects c @ [obj]))"
  by (simp add: client_Create_def)

lemma createLoop_collision:
  assumes "fault_at (faults c) 0 = None" and "fault_at (faults c) 1 = None"
    and "Namespace clone = Namespace parent"
    and "find (\<lambda>obj. key_of obj = (Namespace parent,
                 ControllerRevisionName (Name parent) (hashf revision collisionCount)))
           (objects c) = Some existing"
  shows "createLoop hashf parent revision clone collisionCount c
         = (let clone' = clone\<lparr>Name := ControllerRevisionName (Name parent)
                                          (hashf revision collisionCount)\<rparr>;
                c2 = \<lparr>objects = objects c, faults = tl (tl (faults c)),
                      calls = calls c @ [(CreateCall clone', Some AlreadyExists),
                                         (GetCall (Namespace parent, Name clone'), None)]\<rparr>
            in if Data existing = Data clone then Some (Inr existing, collisionCount, c2)
               else createLoop hashf parent revision clone' (collisionCount + 1) c2)"
proof -
  let ?clone = "clone\<lparr>Name := ControllerRevisionName (Name parent) (hashf revision collisionCount)\<rparr>"
  let ?key = "(Namespace parent, Name ?clone)"
  let ?c1 = "answer c (CreateCall ?clone) (Some AlreadyExists) (objects c)"
  let ?c2 = "answer ?c1 (GetCall ?key) None (objects ?c1)"
  have k: "key_of ?clone = ?key" using assms(3) by (simp add: key_of_def)
  have mem: "key_of ?clone \<in> set (map key_of (objects c))"
  proof -
    from assms(4) obtain i where "i < length (objects c)" "key_of (objects c ! i) = ?key"
      by (auto simp: find_Some_iff)
    then have "?key \<in> key_of ` set (objects c)" by (metis imageI nth_mem)
    then show ?thesis unfolding k by simp
  qed
  have cr: "client_Create c ?clone = (Some AlreadyExists, ?c1)"
    using assms(1) mem by (intro client_Create_exists) (simp_all add: next_fault_fault_at)
  have g: "client_Get ?c1 ?key = (Inr existing, ?c2)"
    using assms(2,4) by (intro client_Get_found) (simp_all add: next_fault_fault_at fault_at_tl)
  show ?thesis
    apply (subst createLoop.simps)
    using cr g[simplified] by (simp add: Let_def answer_def)
qed

lemma createLoop_fresh:
  assumes "fault_at (faults c) 0 = None"
    and "key_of (clone\<lparr>Name := ControllerRevisionName (Name parent)
                                   (hashf revision collisionCount)\<rparr>)
           \<notin> key_of ` set (objects c)"
  shows "createLoop hashf parent revision clone collisionCount c
         = (let clone' = clone\<lparr>Name := ControllerRevisionName (Name parent)
                                          (hashf revision collisionCount)\<rparr>
            in Some (Inr clone', collisionCount,
                     \<lparr>objects = objects c @ [clone'], faults = tl (faults c),
                      calls = calls c @ [(CreateCall clone', None)]\<rparr>))"
proof -
  let ?clone = "clone\<lparr>Name := ControllerRevisionName (Name parent) (hashf revision collisionCount)\<rparr>"
  have cr: "client_Create c ?clone = (None, answer c (CreateCall ?clone) None (objects c @ [?clone]))"
    using assms by (intro client_Create_fresh) (simp_all add: next_fault_fault_at)
  show ?thesis
    apply (subst createLoop.simps)
    using cr by (simp add: Let_def answer_def)
qed

text \<open>
  C4 (as amended). \<open>createControllerRevision\<close> enters its loop with the copy of the
  revision and the counter it was given. Take any iteration of the loop whose create and
  read are not disturbed by a fault and whose freshly computed name is that of a stored
  object \<open>existing\<close>. If the content of \<open>existing\<close> is that of the candidate, the loop
  returns \<open>existing\<close> with the counter and the stored objects as they were. If the
  content differs, the loop goes on with the counter plus one in 32-bit arithmetic,
  which is the counter's value plus one unless the counter was \<open>2 ^ 31 - 1\<close>; every run of
  the retry that returns starts by creating the candidate under the name computed from
  the incremented counter, and when that name is free and the create is not disturbed,
  the candidate is stored under it and returned with the incremented counter.
\<close>

theorem createControllerRevision_collision:
  assumes "fault_at (faults c) 0 = None" and "fault_at (faults c) 1 = None"
    and "Namespace clone = Namespace parent"
    and "find (\<lambda>obj. key_of obj = (Namespace parent,
                 ControllerRevisionName (Name parent) (hashf revision collisionCount)))
           (objects c) = Some existing"
    and "clone' = clone\<lparr>Name := ControllerRevisionName (Name parent)
                                    (hashf revision collisionCount)\<rparr>"
    and "c2 = \<lparr>objects = objects c, faults = tl (tl (faults c)),
               calls = calls c @ [(CreateCall clone', Some AlreadyExists),
                                  (GetCall (Namespace parent, Name clone'), None)]\<rparr>"
    and "retry = clone\<lparr>Name := ControllerRevisionName (Name parent)
                                   (hashf revision (collisionCount + 1))\<rparr>"
  shows "createControllerRevision hashf parent revision (Some collisionCount) c
           = (case createLoop hashf parent revision revision collisionCount c of
                None \<Rightarrow> None
              | Some (result, count', c') \<Rightarrow> Some (result, Some count', c'))
       \<and> (Data existing = Data clone \<longrightarrow>
            createLoop hashf parent revision clone collisionCount c
              = Some (Inr existing, collisionCount, c2))
       \<and> (Data existing \<noteq> Data clone \<longrightarrow>
            createLoop hashf parent revision clone collisionCount c
              = createLoop hashf parent revision clone' (collisionCount + 1) c2
            \<and> (sint collisionCount \<noteq> 2 ^ 31 - 1 \<longrightarrow>
                  sint (collisionCount + 1) = sint collisionCount + 1)
            \<and> (\<forall>y. createLoop hashf parent revision clone' (collisionCount + 1) c2 = Some y \<longrightarrow>
                  (\<exists>result rest. calls (snd (snd y))
                     = calls c2 @ (CreateCall retry, result) # rest))
            \<and> (fault_at (faults c) 2 = None \<and> key_of retry \<notin> key_of ` set (objects c) \<longrightarrow>
                  createLoop hashf parent revision clone collisionCount c
                    = Some (Inr retry, collisionCount + 1,
                            \<lparr>objects = objects c @ [retry], faults = tl (tl (tl (faults c))),
                             calls = calls c2 @ [(CreateCall retry, None)]\<rparr>)))"
proof -
  have loop: "createLoop hashf parent revision clone collisionCount c
         = (if Data existing = Data clone then Some (Inr existing, collisionCount, c2)
            else createLoop hashf parent revision clone' (collisionCount + 1) c2)"
    using createLoop_collision[of c clone parent hashf revision collisionCount existing,
            OF assms(1,2,3,4)]
    by (simp add: Let_def assms(5,6))
  have r: "clone'\<lparr>Name := ControllerRevisionName (Name parent)
                                   (hashf revision (collisionCount + 1))\<rparr> = retry"
    by (simp add: assms(5,7))
  have first: "\<exists>result rest. calls (snd (snd y)) = calls c2 @ (CreateCall retry, result) # rest"
    if "createLoop hashf parent revision clone' (collisionCount + 1) c2 = Some y" for y
    using createLoop_first_call[OF that] by (simp add: r)
  have fresh: "createLoop hashf parent revision clone' (collisionCount + 1) c2
                 = Some (Inr retry, collisionCount + 1,
                         \<lparr>objects = objects c @ [retry], faults = tl (tl (tl (faults c))),
                          calls = calls c2 @ [(CreateCall retry, None)]\<rparr>)"
    if "fault_at (faults c) 2 = None" "key_of retry \<notin> key_of ` set (objects c)"
  proof -
    have f: "fault_at (faults c2) 0 = None"
      using that(1) by (simp add: assms(6) fault_at_tl numeral_2_eq_2)
    have k: "key_of (clone'\<lparr>Name := ControllerRevisionName (Name parent)
                                   (hashf revision (collisionCount + 1))\<rparr>)
               \<notin> key_of ` set (objects c2)"
      using that(2) by (simp add: r assms(6))
    show ?thesis using createLoop_fresh[where c = c2 and clone = clone' and parent = parent and hashf = hashf
            and revision = revision and collisionCount = "collisionCount + 1", OF f k] by (simp add: Let_def r assms(6))
  qed
  have entry: "createControllerRevision hashf parent revision (Some collisionCount) c
           = (case createLoop hashf parent revision revision collisionCount c of
                None \<Rightarrow> None
              | Some (result, count', c') \<Rightarrow> Some (result, Some count', c'))"
    by (simp add: createControllerRevision_def)
  have succ: "sint collisionCount \<noteq> 2 ^ 31 - 1 \<longrightarrow>
                  sint (collisionCount + 1) = sint collisionCount + 1"
    using sint_succ_int32[of collisionCount] by simp
  show ?thesis
  proof (intro conjI impI allI)
    show "createControllerRevision hashf parent revision (Some collisionCount) c
           = (case createLoop hashf parent revision revision collisionCount c of
                None \<Rightarrow> None
              | Some (result, count', c') \<Rightarrow> Some (result, Some count', c'))"
      by (rule entry)
  next
    assume "Data existing = Data clone"
    then show "createLoop hashf parent revision clone collisionCount c
              = Some (Inr existing, collisionCount, c2)" using loop by simp
  next
    assume "Data existing \<noteq> Data clone"
    then show "createLoop hashf parent revision clone collisionCount c
              = createLoop hashf parent revision clone' (collisionCount + 1) c2" using loop by simp
  next
    assume "sint collisionCount \<noteq> 2 ^ 31 - 1"
    then show "sint (collisionCount + 1) = sint collisionCount + 1" using succ by simp
  next
    fix y assume "createLoop hashf parent revision clone' (collisionCount + 1) c2 = Some y"
    then show "\<exists>result rest. calls (snd (snd y)) = calls c2 @ (CreateCall retry, result) # rest"
      by (rule first)
  next
    assume d: "Data existing \<noteq> Data clone"
      and "fault_at (faults c) 2 = None \<and> key_of retry \<notin> key_of ` set (objects c)"
    then show "createLoop hashf parent revision clone collisionCount c
                    = Some (Inr retry, collisionCount + 1,
                            \<lparr>objects = objects c @ [retry], faults = tl (tl (tl (faults c))),
                             calls = calls c2 @ [(CreateCall retry, None)]\<rparr>)"
      using loop fresh by simp
  qed
qed

theorem createControllerRevision_collision_witness:
  "createControllerRevision example_hash (example_ud 10 ''web-a'' [])
       (rev_candidate ''template-1'') (Some 0) (quiet_cluster [rev_a])
     = Some (Inr rev_a, Some 0,
             \<lparr>objects = [rev_a], faults = [],
              calls = [(CreateCall ((rev_candidate ''template-1'')\<lparr>Name := ''web-a''\<rparr>),
                          Some AlreadyExists),
                       (GetCall (''default'', ''web-a''), None)]\<rparr>)
   \<and> createControllerRevision example_hash (example_ud 10 ''web-a'' [])
       (rev_candidate ''template-9'') (Some 0) (quiet_cluster [rev_a])
     = Some (Inr ((rev_candidate ''template-9'')\<lparr>Name := ''web-fresh''\<rparr>), Some 1,
             \<lparr>objects = [rev_a, (rev_candidate ''template-9'')\<lparr>Name := ''web-fresh''\<rparr>],
              faults = [],
              calls = [(CreateCall ((rev_candidate ''template-9'')\<lparr>Name := ''web-a''\<rparr>),
                          Some AlreadyExists),
                       (GetCall (''default'', ''web-a''), None),
                       (CreateCall ((rev_candidate ''template-9'')\<lparr>Name := ''web-fresh''\<rparr>),
                          None)]\<rparr>)
   \<and> sint (1 :: int32) = sint (0 :: int32) + 1"
proof -
  let ?ud = "example_ud 10 ''web-a'' []"
  let ?c = "quiet_cluster [rev_a] :: ControllerRevision cluster"
  have f: "fault_at (faults ?c) 0 = None" "fault_at (faults ?c) 1 = None"
    "fault_at (faults ?c) 2 = None"
    by (simp_all add: fault_at_def quiet_cluster_def)
  have ns: "Namespace (rev_candidate d) = Namespace ?ud" for d
    by (simp add: rev_candidate_def example_defs)
  have found: "find (\<lambda>obj. key_of obj = (Namespace ?ud,
                 ControllerRevisionName (Name ?ud) (example_hash (rev_candidate d) 0)))
           (objects ?c) = Some rev_a" for d
    by (simp add: example_hash_def ControllerRevisionName_def key_of_def example_defs)
  have same: "Data rev_a = Data (rev_candidate ''template-1'')"
    and differ: "Data rev_a \<noteq> Data (rev_candidate ''template-9'')"
    by (simp_all add: rev_candidate_def example_defs)
  have fresh: "key_of ((rev_candidate ''template-9'')
                  \<lparr>Name := ControllerRevisionName (Name ?ud)
                             (example_hash (rev_candidate ''template-9'') (0 + 1))\<rparr>)
                 \<notin> key_of ` set (objects ?c)"
    by (simp add: example_hash_def ControllerRevisionName_def key_of_def rev_candidate_def
          example_defs)
  note t1 = createControllerRevision_collision
               [where c = ?c and clone = "rev_candidate ''template-1''" and parent = ?ud
                  and hashf = example_hash and revision = "rev_candidate ''template-1''"
                  and collisionCount = 0 and existing = rev_a,
                OF f(1,2) ns found refl refl refl]
  note t9 = createControllerRevision_collision
               [where c = ?c and clone = "rev_candidate ''template-9''" and parent = ?ud
                  and hashf = example_hash and revision = "rev_candidate ''template-9''"
                  and collisionCount = 0 and existing = rev_a,
                OF f(1,2) ns found refl refl refl]
  have loop1: "createLoop example_hash ?ud (rev_candidate ''template-1'')
                 (rev_candidate ''template-1'') 0 ?c
     = Some (Inr rev_a, 0,
             \<lparr>objects = objects ?c, faults = tl (tl (faults ?c)),
              calls = calls ?c @
                [(CreateCall ((rev_candidate ''template-1'')
                    \<lparr>Name := ControllerRevisionName (Name ?ud)
                               (example_hash (rev_candidate ''template-1'') 0)\<rparr>),
                  Some AlreadyExists),
                 (GetCall (Namespace ?ud,
                           Name ((rev_candidate ''template-1'')
                    \<lparr>Name := ControllerRevisionName (Name ?ud)
                               (example_hash (rev_candidate ''template-1'') 0)\<rparr>)), None)]\<rparr>)"
    by (rule t1[THEN conjunct2, THEN conjunct1, THEN mp, OF same])
  have one: "createControllerRevision example_hash ?ud (rev_candidate ''template-1'') (Some 0) ?c
     = Some (Inr rev_a, Some 0,
             \<lparr>objects = [rev_a], faults = [],
              calls = [(CreateCall ((rev_candidate ''template-1'')\<lparr>Name := ''web-a''\<rparr>),
                          Some AlreadyExists),
                       (GetCall (''default'', ''web-a''), None)]\<rparr>)"
    unfolding t1[THEN conjunct1] loop1
    by (simp add: example_hash_def ControllerRevisionName_def quiet_cluster_def example_ud_def)
  note loop9 = t9[THEN conjunct2, THEN conjunct2, THEN mp, OF differ, THEN conjunct2,
                  THEN conjunct2, THEN conjunct2, THEN mp, OF conjI [OF f(3) fresh]]
  have two: "createControllerRevision example_hash ?ud (rev_candidate ''template-9'') (Some 0) ?c
     = Some (Inr ((rev_candidate ''template-9'')\<lparr>Name := ''web-fresh''\<rparr>), Some 1,
             \<lparr>objects = [rev_a, (rev_candidate ''template-9'')\<lparr>Name := ''web-fresh''\<rparr>],
              faults = [],
              calls = [(CreateCall ((rev_candidate ''template-9'')\<lparr>Name := ''web-a''\<rparr>),
                          Some AlreadyExists),
                       (GetCall (''default'', ''web-a''), None),
                       (CreateCall ((rev_candidate ''template-9'')\<lparr>Name := ''web-fresh''\<rparr>),
                          None)]\<rparr>)"
    unfolding t9[THEN conjunct1] loop9
    by (simp add: example_hash_def ControllerRevisionName_def quiet_cluster_def example_ud_def)
  show ?thesis using one two by simp
qed

text \<open>
  C4 as stated fails at the top of the counter's range: with the counter at
  \<open>2147483647\<close> and a stored object of the computed name and of different content, the
  increment wraps, and the counter handed back is \<open>-2147483648\<close>, which is not above
  \<open>2147483647\<close>.
\<close>

theorem createControllerRevision_counter_wraps_counterexample:
  "find (\<lambda>obj. key_of obj = (''default'', ControllerRevisionName ''web''
                    (example_hash (rev_candidate ''template-9'') 2147483647)))
      [rev_a] = Some rev_a
   \<and> Data rev_a \<noteq> Data (rev_candidate ''template-9'')
   \<and> createControllerRevision example_hash (example_ud 10 ''web-a'' [])
       (rev_candidate ''template-9'') (Some 2147483647) (quiet_cluster [rev_a])
     = Some (Inr ((rev_candidate ''template-9'')\<lparr>Name := ''web-fresh''\<rparr>),
             Some (2147483647 + 1),
             \<lparr>objects = [rev_a, (rev_candidate ''template-9'')\<lparr>Name := ''web-fresh''\<rparr>],
              faults = [],
              calls = [(CreateCall ((rev_candidate ''template-9'')\<lparr>Name := ''web-a''\<rparr>),
                          Some AlreadyExists),
                       (GetCall (''default'', ''web-a''), None),
                       (CreateCall ((rev_candidate ''template-9'')\<lparr>Name := ''web-fresh''\<rparr>),
                          None)]\<rparr>)
   \<and> sint (2147483647 + 1 :: int32) = - 2147483648
   \<and> sint (2147483647 :: int32) = 2147483647"
proof -
  let ?ud = "example_ud 10 ''web-a'' []"
  let ?c = "quiet_cluster [rev_a] :: ControllerRevision cluster"
  let ?r = "rev_candidate ''template-9''"
  let ?c2 = "\<lparr>objects = [rev_a], faults = [],
              calls = [(CreateCall (?r\<lparr>Name := ''web-a''\<rparr>), Some AlreadyExists),
                       (GetCall (''default'', ''web-a''), None)]\<rparr> :: ControllerRevision cluster"
  have found: "find (\<lambda>obj. key_of obj = (''default'', ControllerRevisionName ''web''
                    (example_hash ?r 2147483647))) [rev_a] = Some rev_a"
    by (simp add: example_hash_def ControllerRevisionName_def key_of_def example_defs)
  have differ: "Data rev_a \<noteq> Data ?r"
    by (simp add: rev_candidate_def example_defs)
  have step1: "createLoop example_hash ?ud ?r ?r 2147483647 ?c
                 = createLoop example_hash ?ud ?r (?r\<lparr>Name := ''web-a''\<rparr>) (2147483647 + 1) ?c2"
    using createLoop_collision[where c = ?c and clone = ?r and parent = ?ud
             and hashf = example_hash and revision = ?r and collisionCount = 2147483647
             and existing = rev_a] found differ
    by (simp add: Let_def fault_at_def quiet_cluster_def example_ud_def rev_candidate_def
          rev_named_def example_hash_def ControllerRevisionName_def)
  have step2: "createLoop example_hash ?ud ?r (?r\<lparr>Name := ''web-a''\<rparr>) (2147483647 + 1) ?c2
                 = Some (Inr (?r\<lparr>Name := ''web-fresh''\<rparr>), 2147483647 + 1,
                         \<lparr>objects = [rev_a, ?r\<lparr>Name := ''web-fresh''\<rparr>], faults = [],
                          calls = calls ?c2 @ [(CreateCall (?r\<lparr>Name := ''web-fresh''\<rparr>), None)]\<rparr>)"
    using createLoop_fresh[where c = ?c2 and clone = "?r\<lparr>Name := ''web-a''\<rparr>" and parent = ?ud
             and hashf = example_hash and revision = ?r and collisionCount = "2147483647 + 1"]
    by (simp add: Let_def fault_at_def key_of_def example_ud_def rev_candidate_def
          rev_named_def rev_a_def example_hash_def ControllerRevisionName_def)
  have run: "createControllerRevision example_hash ?ud ?r (Some 2147483647) ?c
     = Some (Inr (?r\<lparr>Name := ''web-fresh''\<rparr>), Some (2147483647 + 1),
             \<lparr>objects = [rev_a, ?r\<lparr>Name := ''web-fresh''\<rparr>], faults = [],
              calls = calls ?c2 @ [(CreateCall (?r\<lparr>Name := ''web-fresh''\<rparr>), None)]\<rparr>)"
    unfolding createControllerRevision_def option.case step1 step2 by simp
  have wrap: "sint (2147483647 + 1 :: int32) = - 2147483648" "sint (2147483647 :: int32) = 2147483647"
    by simp_all
  show ?thesis using found differ run wrap by simp
qed

end
